theory Spec2Isabelle
  imports Main "HOL-Library.Char_ord" "HOL-Library.List_Lexorder" "HOL-Library.Sublist"
    "HOL-Library.Multiset"
begin

section \<open>JavaScript strings\<close>

text \<open>
  A JavaScript string is modelled as a \<^typ>\<open>string\<close>, one \<^typ>\<open>char\<close> per code unit, for the
  code units below 256 (Latin-1). On these \<open>trim\<close> and the class \<open>\s\<close> strip the six ASCII
  white-space characters and the no-break space \<open>U+00A0\<close>, \<open>\d\<close> is \<open>0\<close> to \<open>9\<close>, and
  \<open>toLowerCase\<close> maps \<open>A\<close> to \<open>Z\<close> and the upper-case letters \<open>U+00C0\<close> to \<open>U+00DE\<close> (all but
  the multiplication sign \<open>U+00D7\<close>) to the code unit 32 above.
\<close>

definition isWhiteSpace :: "char \<Rightarrow> bool" where
  "isWhiteSpace c =
     (c = CHR '' '' \<or> c = CHR 0x09 \<or> c = CHR 0x0A \<or> c = CHR 0x0B \<or> c = CHR 0x0C \<or>
      c = CHR 0x0D \<or> c = CHR 0xA0)"

definition isDigit :: "char \<Rightarrow> bool" where
  "isDigit c = (CHR ''0'' \<le> c \<and> c \<le> CHR ''9'')"

definition toLowerChar :: "char \<Rightarrow> char" where
  "toLowerChar c =
     (if (CHR ''A'' \<le> c \<and> c \<le> CHR ''Z'') \<or>
         (CHR 0xC0 \<le> c \<and> c \<le> CHR 0xDE \<and> c \<noteq> CHR 0xD7)
      then char_of (of_char c + (32::nat))
      else c)"

definition toLowerCase :: "string \<Rightarrow> string" where
  "toLowerCase s = map toLowerChar s"

definition trim :: "string \<Rightarrow> string" where
  "trim s = rev (dropWhile isWhiteSpace (rev (dropWhile isWhiteSpace s)))"

text \<open>\<open>s.includes(pat)\<close>, called \<open>strIncludes\<close> here: \<open>pat\<close> occurs in \<open>s\<close> as a contiguous block.\<close>

fun strIncludes :: "string \<Rightarrow> string \<Rightarrow> bool" where
  "strIncludes [] pat = (pat = [])"
| "strIncludes (c # cs) pat = (prefix pat (c # cs) \<or> strIncludes cs pat)"

text \<open>\<open>s.substring(start, end)\<close> for \<open>start \<le> end\<close>, the only way the service calls it.\<close>

definition substring :: "nat \<Rightarrow> nat \<Rightarrow> string \<Rightarrow> string" where
  "substring start stop s = take (stop - start) (drop start s)"

text \<open>\<open>s.split(d)\<close> for a one-character separator: never empty, \<open>''''.split(d) = ['''']\<close>.\<close>

fun splitOn :: "char \<Rightarrow> string \<Rightarrow> string list" where
  "splitOn d [] = [[]]"
| "splitOn d (c # cs) =
     (if c = d then [] # splitOn d cs
      else (case splitOn d cs of w # ws \<Rightarrow> (c # w) # ws | [] \<Rightarrow> [[c]]))"

text \<open>\<open>s.split(/\s+/)\<close>: the separators are the maximal runs of white space.\<close>

function splitWs :: "string \<Rightarrow> string list" where
  "splitWs [] = [[]]"
| "splitWs (c # cs) =
     (if isWhiteSpace c then [] # splitWs (dropWhile isWhiteSpace cs)
      else (case splitWs cs of w # ws \<Rightarrow> (c # w) # ws | [] \<Rightarrow> [[c]]))"
  by pat_completeness auto
termination
  by (relation "measure length") (auto simp: less_Suc_eq_le length_dropWhile_le)

section \<open>Data model\<close>

datatype ModelStatus = ACTIVE | PREVIEW | DEPRECATED

record BedrockModelInfo =
  modelId :: string
  modelName :: string
  provider :: string
  regions :: "string list"
  inputModalities :: "string list"
  outputModalities :: "string list"
  streamingSupported :: bool
  requiresAccess :: bool
  status :: ModelStatus
  releaseDate :: "string option"

datatype AccessState = GRANTED | PENDING | DENIED | NOT_REQUESTED

text \<open>
  The \<open>modelId\<close> field of \<open>ModelAccessStatus\<close> is called \<open>accessModelId\<close> here, since a
  field name is a constant of the theory and \<open>modelId\<close> is taken by \<open>BedrockModelInfo\<close>.
\<close>

record ModelAccessStatus =
  accessModelId :: string
  hasAccess :: bool
  accessStatus :: AccessState
  canRequestAccess :: bool

section \<open>Derived attributes\<close>

text \<open>
  \<open>isModelRequiringAccess\<close>: the provider-specific branch first, then the pattern list.
  None of the six regular expressions uses a metacharacter, so \<open>pattern.test(modelId)\<close>
  is a substring test.
\<close>

definition accessRequiredPatterns :: "string list" where
  "accessRequiredPatterns =
     [''claude-4'', ''opus-4'', ''sonnet-4'', ''haiku-4'', ''nova-premier'', ''nova-pro'']"

definition isModelRequiringAccess :: "string \<Rightarrow> string \<Rightarrow> bool" where
  "isModelRequiringAccess mid prov =
     (if strIncludes (toLowerCase prov) ''anthropic'' \<and>
         (strIncludes mid ''claude-4'' \<or> strIncludes mid ''claude-sonnet-4'' \<or>
          strIncludes mid ''claude-opus-4'' \<or> strIncludes mid ''claude-haiku-4'')
      then True
      else list_ex (\<lambda>pattern. strIncludes mid pattern) accessRequiredPatterns)"

text \<open>
  \<open>modelId.match(/(\d{8})/)\<close>: the leftmost position at which eight digits follow one
  another; the match is those eight characters.
\<close>

fun matchDigits8 :: "string \<Rightarrow> string option" where
  "matchDigits8 [] = None"
| "matchDigits8 (c # cs) =
     (if 8 \<le> length (c # cs) \<and> list_all isDigit (take 8 (c # cs))
      then Some (take 8 (c # cs))
      else matchDigits8 cs)"

definition formatDate :: "string \<Rightarrow> string" where
  "formatDate dateStr =
     substring 0 4 dateStr @ ''-'' @ substring 4 6 dateStr @ ''-'' @ substring 6 8 dateStr"

definition inferReleaseDate :: "string \<Rightarrow> string option" where
  "inferReleaseDate mid =
     (case matchDigits8 mid of Some dateStr \<Rightarrow> Some (formatDate dateStr) | None \<Rightarrow> None)"

text \<open>
  The release date as the specification words it: the first maximal run of digits whose
  length is exactly eight. \<open>digitRuns\<close> lists the maximal runs from left to right.
\<close>

fun digitRunsFrom :: "string \<Rightarrow> string \<Rightarrow> string list" where
  "digitRunsFrom cur [] = (if cur = [] then [] else [cur])"
| "digitRunsFrom cur (c # cs) =
     (if isDigit c then digitRunsFrom (cur @ [c]) cs
      else (if cur = [] then [] else [cur]) @ digitRunsFrom [] cs)"

definition digitRuns :: "string \<Rightarrow> string list" where
  "digitRuns s = digitRunsFrom [] s"

definition spec_releaseDate :: "string \<Rightarrow> string option" where
  "spec_releaseDate mid =
     (case find (\<lambda>r. length r = 8) (digitRuns mid) of
        Some d \<Rightarrow> Some (formatDate d)
      | None \<Rightarrow> None)"

section \<open>The collaborators\<close>

text \<open>
  What a call can throw. \<open>ModelTableNotFound\<close> is the
  \<open>Error('Model table not found in AWS documentation')\<close> of the parser; the others are
  raised by the collaborators (the network, \<open>response.json()\<close>, \<open>DOMParser\<close>).
\<close>

datatype error = TransportError | JsonError | DomError | ModelTableNotFound

definition bindE :: "error + 'a \<Rightarrow> ('a \<Rightarrow> error + 'b) \<Rightarrow> error + 'b" where
  "bindE m f = (case m of Inl e \<Rightarrow> Inl e | Inr v \<Rightarrow> f v)"

definition tryCatch :: "error + 'a \<Rightarrow> (error \<Rightarrow> error + 'a) \<Rightarrow> error + 'a" where
  "tryCatch body handler = (case body of Inl e \<Rightarrow> handler e | Inr v \<Rightarrow> Inr v)"

record credentials =
  accessKeyId :: string
  secretAccessKey :: string

text \<open>A fetch response: its \<open>ok\<close> flag and what \<open>await response.json()\<close> gives.\<close>

record 'b response =
  ok :: bool
  json :: "error + 'b"

text \<open>
  A table of the parsed document: the \<open>textContent\<close> of its \<open>th\<close> elements, and for each
  \<open>tbody tr\<close> row the \<open>textContent\<close> of its \<open>td\<close> cells.
\<close>

record html_table =
  th_texts :: "string list"
  tbody_rows :: "string list list"

text \<open>The entries of \<open>modelSummaries\<close> and \<open>inferenceProfileSummaries\<close>, with the fields read.\<close>

record FoundationModelSummary =
  fm_modelId :: string
  fm_outputModalities :: "string list option"
  fm_lifecycleStatus :: "string option"

record InferenceProfileSummary =
  ip_inferenceProfileId :: string
  ip_status :: "string option"

text \<open>
  The world the service talks to. \<open>docFetch\<close> is the \<open>fetch\<close> of the documentation page
  followed by \<open>response.text()\<close>; \<open>domParse\<close> is \<open>new DOMParser().parseFromString\<close> and the
  \<open>querySelectorAll\<close> calls on its result. The three signed requests are those made with
  the fetcher of \<open>createSignedFetcher\<close> for the given credentials and region, which only
  builds a closure and does not throw; the body of a response is the optional array
  (\<open>modelAccessSummaries\<close> as the list of its \<open>modelId\<close>s, \<open>modelSummaries\<close>,
  \<open>inferenceProfileSummaries\<close>). The foundation-models request also takes its query
  parameters. A request answers the same way each time it is made.
\<close>

record env =
  docFetch :: "error + string"
  domParse :: "string \<Rightarrow> error + html_table list"
  getModelAccess :: "credentials \<Rightarrow> string \<Rightarrow> error + (string list option) response"
  getFoundationModels ::
    "credentials \<Rightarrow> string \<Rightarrow> (string \<times> string) list
       \<Rightarrow> error + (FoundationModelSummary list option) response"
  getInferenceProfiles ::
    "credentials \<Rightarrow> string \<Rightarrow> error + (InferenceProfileSummary list option) response"

section \<open>Catalog acquisition\<close>

definition isModelTable :: "html_table \<Rightarrow> bool" where
  "isModelTable t =
     (let headerText = map toLowerCase (th_texts t)
      in ''model id'' \<in> set headerText \<and> ''provider'' \<in> set headerText)"

text \<open>One row of the table; \<open>None\<close> where the loop body pushes nothing.\<close>

definition parseRow :: "string list \<Rightarrow> BedrockModelInfo option" where
  "parseRow cells =
     (if length cells < 6 then None
      else
        let prov = trim (cells ! 0);
            name = trim (cells ! 1);
            mid = trim (cells ! 2);
            regs = splitWs (trim (cells ! 3));
            ins = map trim (splitOn CHR '','' (trim (cells ! 4)));
            outs = map trim (splitOn CHR '','' (trim (cells ! 5)));
            streaming = (6 < length cells \<and> strIncludes (toLowerCase (cells ! 6)) ''yes'')
        in if mid \<noteq> [] \<and> prov \<noteq> []
           then Some \<lparr> modelId = mid, modelName = name, provider = prov,
                  regions = filter (\<lambda>r. r \<noteq> [] \<and> r \<noteq> ''*'') regs,
                  inputModalities = ins, outputModalities = outs,
                  streamingSupported = streaming,
                  requiresAccess = isModelRequiringAccess mid prov,
                  status = ACTIVE, releaseDate = None \<rparr>
           else None)"

text \<open>
  The \<open>try\<close> block of \<open>parseModelCatalogFromHTML\<close>. It can throw only before the first
  \<open>models.push\<close>, so the \<open>catch\<close>, which logs and falls through to \<open>return models\<close>,
  returns the empty list.
\<close>

definition parseModelCatalog_try :: "env \<Rightarrow> string \<Rightarrow> error + BedrockModelInfo list" where
  "parseModelCatalog_try env html =
     bindE (domParse env html) (\<lambda>tables.
       case find isModelTable tables of
         None \<Rightarrow> Inl ModelTableNotFound
       | Some modelTable \<Rightarrow> Inr (List.map_filter parseRow (tbody_rows modelTable)))"

definition parseModelCatalogFromHTML :: "env \<Rightarrow> string \<Rightarrow> error + BedrockModelInfo list" where
  "parseModelCatalogFromHTML env html =
     tryCatch (parseModelCatalog_try env html) (\<lambda>e. Inr [])"

definition enhanceModelMetadata :: "BedrockModelInfo list \<Rightarrow> BedrockModelInfo list" where
  "enhanceModelMetadata models =
     map (\<lambda>m. m \<lparr> releaseDate := inferReleaseDate (modelId m),
                requiresAccess := isModelRequiringAccess (modelId m) (provider m) \<rparr>) models"

definition fallbackEntry ::
  "string \<Rightarrow> string \<Rightarrow> string list \<Rightarrow> string \<Rightarrow> BedrockModelInfo" where
  "fallbackEntry mid name regs date =
     \<lparr> modelId = mid, modelName = name, provider = ''Anthropic'', regions = regs,
       inputModalities = [''Text'', ''Image''], outputModalities = [''Text'', ''Chat''],
       streamingSupported = True, requiresAccess = True, status = ACTIVE,
       releaseDate = Some date \<rparr>"

definition getFallbackModelCatalog :: "BedrockModelInfo list" where
  "getFallbackModelCatalog =
     [ fallbackEntry ''anthropic.claude-sonnet-4-5-20250929-v1:0'' ''Claude Sonnet 4.5''
         [''us-east-1'', ''us-east-2'', ''us-west-1'', ''us-west-2'', ''eu-west-1'', ''eu-central-1'']
         ''2025-09-29'',
       fallbackEntry ''anthropic.claude-haiku-4-5-20251001-v1:0'' ''Claude Haiku 4.5''
         [''us-east-1'', ''us-east-2'', ''us-west-1'', ''us-west-2'', ''eu-west-1'', ''eu-central-1'']
         ''2025-10-01'',
       fallbackEntry ''anthropic.claude-sonnet-4-20250514-v1:0'' ''Claude Sonnet 4''
         [''us-east-1'', ''us-east-2'', ''us-west-1'', ''us-west-2'', ''eu-west-1'']
         ''2025-05-14'',
       fallbackEntry ''anthropic.claude-opus-4-20250514-v1:0'' ''Claude Opus 4''
         [''us-east-1'', ''us-east-2'', ''us-west-2'']
         ''2025-05-14'',
       fallbackEntry ''us.anthropic.claude-sonnet-4-5-20250929-v1:0''
         ''Claude Sonnet 4.5 (US Cross-Region)'' [''us-west-2''] ''2025-09-29'',
       fallbackEntry ''eu.anthropic.claude-sonnet-4-5-20250929-v1:0''
         ''Claude Sonnet 4.5 (EU Cross-Region)'' [''eu-west-1''] ''2025-09-29'' ]"

definition fetchLatestModelCatalog :: "env \<Rightarrow> error + BedrockModelInfo list" where
  "fetchLatestModelCatalog env =
     tryCatch
       (bindE (docFetch env) (\<lambda>html.
        bindE (parseModelCatalogFromHTML env html) (\<lambda>models.
        Inr (enhanceModelMetadata models))))
       (\<lambda>e. Inr getFallbackModelCatalog)"

section \<open>Access status\<close>

definition grantedModels :: "string list option \<Rightarrow> string set" where
  "grantedModels summaries = set (case summaries of None \<Rightarrow> [] | Some ids \<Rightarrow> ids)"

definition liveStatus :: "string set \<Rightarrow> string \<Rightarrow> ModelAccessStatus" where
  "liveStatus granted mid =
     \<lparr> accessModelId = mid, hasAccess = (mid \<in> granted),
       accessStatus = (if mid \<in> granted then GRANTED else NOT_REQUESTED),
       canRequestAccess = True \<rparr>"

definition heuristicStatus :: "string \<Rightarrow> ModelAccessStatus" where
  "heuristicStatus mid =
     \<lparr> accessModelId = mid, hasAccess = (\<not> isModelRequiringAccess mid []),
       accessStatus = NOT_REQUESTED, canRequestAccess = True \<rparr>"

text \<open>
  \<open>accessStatuses\<close> is still empty whenever the \<open>try\<close> block throws (the request and
  \<open>response.json()\<close> come before the first push), so the \<open>catch\<close> returns the heuristic
  statuses alone. A response that is not \<open>ok\<close> skips the \<open>if\<close> and leaves the list empty.
\<close>

definition checkModelAccessStatus ::
  "env \<Rightarrow> credentials \<Rightarrow> string \<Rightarrow> string list \<Rightarrow> error + ModelAccessStatus list" where
  "checkModelAccessStatus env creds region modelIds =
     tryCatch
       (bindE (getModelAccess env creds region) (\<lambda>resp.
          if ok resp
          then bindE (json resp) (\<lambda>data. Inr (map (liveStatus (grantedModels data)) modelIds))
          else Inr []))
       (\<lambda>e. Inr (map heuristicStatus modelIds))"

section \<open>Command synthesis\<close>

text \<open>
  \<open>modelsByProvider\<close> is a JavaScript \<open>Map\<close>, iterated in insertion order of its keys: an
  association list with distinct keys, new keys appended. \<open>mapPush\<close> is
  \<open>modelsByProvider.get(provider)!.push(modelId)\<close>.
\<close>

definition providerOf :: "string \<Rightarrow> string" where
  "providerOf mid = (case splitOn CHR ''.'' mid of p # rest \<Rightarrow> p | [] \<Rightarrow> [])"

definition mapHas :: "(string \<times> string list) list \<Rightarrow> string \<Rightarrow> bool" where
  "mapHas m k = (k \<in> set (map fst m))"

definition mapPush ::
  "string \<Rightarrow> string \<Rightarrow> (string \<times> string list) list \<Rightarrow> (string \<times> string list) list" where
  "mapPush k v m = map (\<lambda>(k', vs). if k' = k then (k', vs @ [v]) else (k', vs)) m"

definition groupStep ::
  "string \<Rightarrow> (string \<times> string list) list \<Rightarrow> (string \<times> string list) list" where
  "groupStep mid m =
     (let prov = providerOf mid;
          m1 = (if mapHas m prov then m else m @ [(prov, [])])
      in mapPush prov mid m1)"

definition groupByProvider :: "string list \<Rightarrow> (string \<times> string list) list" where
  "groupByProvider modelIds = fold groupStep modelIds []"

fun joinWith :: "string \<Rightarrow> string list \<Rightarrow> string" where
  "joinWith sep [] = []"
| "joinWith sep [x] = x"
| "joinWith sep (x # y # ys) = x @ sep @ joinWith sep (y # ys)"

text \<open>The six lines pushed for one provider; \<open>CHR 0x22\<close> is the double quote, \<open>CHR 0x5C\<close> the backslash.\<close>

definition commandGroup :: "string \<Rightarrow> string \<times> string list \<Rightarrow> string list" where
  "commandGroup region g =
     (let modelList = joinWith '' '' (map (\<lambda>m. [CHR 0x22] @ m @ [CHR 0x22]) (snd g))
      in [ ''# Request access for '' @ fst g @ '' models'',
           ''aws bedrock put-model-access-request '' @ [CHR 0x5C],
           ''  --region '' @ region @ '' '' @ [CHR 0x5C],
           ''  --model-ids '' @ modelList @ '' '' @ [CHR 0x5C],
           ''  --access-request-reason '' @ [CHR 0x22] @
             ''Automated access request for Nanobrowser extension'' @ [CHR 0x22],
           [] ])"

definition generateAccessRequestCommands :: "string list \<Rightarrow> string \<Rightarrow> string list" where
  "generateAccessRequestCommands modelIds region =
     concat (map (commandGroup region) (groupByProvider modelIds))"

section \<open>Availability queries\<close>

text \<open>
  \<open>allModels\<close> is a \<open>Set\<close> of strings: a list without duplicates in insertion order.
  \<open>Array.from(allModels).sort()\<close> sorts it by code units, the lexicographic order of
  \<^typ>\<open>string\<close>.
\<close>

definition setAdd :: "string \<Rightarrow> string list \<Rightarrow> string list" where
  "setAdd x xs = (if x \<in> set xs then xs else xs @ [x])"

definition isActiveTextModel :: "FoundationModelSummary \<Rightarrow> bool" where
  "isActiveTextModel m =
     ((case fm_outputModalities m of None \<Rightarrow> False | Some oms \<Rightarrow> ''TEXT'' \<in> set oms) \<and>
      fm_lifecycleStatus m = Some ''ACTIVE'')"

definition addFoundationModels ::
  "FoundationModelSummary list option \<Rightarrow> string list \<Rightarrow> string list" where
  "addFoundationModels summaries allModels =
     fold setAdd
       (map fm_modelId (filter isActiveTextModel (case summaries of None \<Rightarrow> [] | Some ms \<Rightarrow> ms)))
       allModels"

definition addInferenceProfiles ::
  "InferenceProfileSummary list option \<Rightarrow> string list \<Rightarrow> string list" where
  "addInferenceProfiles summaries allModels =
     fold setAdd
       (map ip_inferenceProfileId
          (filter (\<lambda>p. ip_status p = Some ''ACTIVE'') (case summaries of None \<Rightarrow> [] | Some ps \<Rightarrow> ps)))
       allModels"

text \<open>
  The two halves of a region's queries, from the request to the last \<open>add\<close>. Each throws
  (\<open>Inl\<close>) only before its first \<open>add\<close>, so the set is unchanged when it does.
\<close>

definition foundationStep ::
  "error + (FoundationModelSummary list option) response \<Rightarrow> string list \<Rightarrow> error + string list" where
  "foundationStep r allModels =
     bindE r (\<lambda>resp.
       if ok resp then bindE (json resp) (\<lambda>data. Inr (addFoundationModels data allModels))
       else Inr allModels)"

definition profileStep ::
  "error + (InferenceProfileSummary list option) response \<Rightarrow> string list \<Rightarrow> error + string list" where
  "profileStep r allModels =
     bindE r (\<lambda>resp.
       if ok resp then bindE (json resp) (\<lambda>data. Inr (addInferenceProfiles data allModels))
       else Inr allModels)"

text \<open>\<open>fetchActuallyAvailableModels\<close>: one \<open>try\<close> around both halves, no query parameters.\<close>

definition fetchActuallyAvailableModels ::
  "env \<Rightarrow> credentials \<Rightarrow> string \<Rightarrow> error + string list" where
  "fetchActuallyAvailableModels env creds region =
     (let allModels =
        (case foundationStep (getFoundationModels env creds region []) [] of
           Inl e \<Rightarrow> []
         | Inr models1 \<Rightarrow>
             (case profileStep (getInferenceProfiles env creds region) models1 of
                Inl e \<Rightarrow> models1
              | Inr models2 \<Rightarrow> models2))
      in Inr (sort allModels))"

text \<open>
  The fan-out of \<open>fetchBedrockModels\<close>, from the choice of regions to the sorted
  \<open>modelIds\<close>. A filter that is absent or the empty string is falsy.
\<close>

record filters =
  filterProvider :: "string option"
  filterOutputModality :: "string option"
  filterInferenceType :: "string option"
  filterCustomizationType :: "string option"

definition truthy :: "string option \<Rightarrow> string list" where
  "truthy v = (case v of None \<Rightarrow> [] | Some s \<Rightarrow> if s = [] then [] else [s])"

definition queryParams :: "filters \<Rightarrow> (string \<times> string) list" where
  "queryParams f =
     [(''byInferenceType'',
       (case truthy (filterInferenceType f) of s # rest \<Rightarrow> s | [] \<Rightarrow> ''ON_DEMAND''))] @
     map (Pair ''byProvider'') (truthy (filterProvider f)) @
     map (Pair ''byOutputModality'') (truthy (filterOutputModality f)) @
     map (Pair ''byCustomizationType'') (truthy (filterCustomizationType f))"

definition regionsOf :: "string \<Rightarrow> string list" where
  "regionsOf selectedRegion =
     (if selectedRegion = ''multi-region''
      then [''us-west-2'', ''us-east-1'', ''eu-west-1'', ''ap-northeast-1'']
      else [selectedRegion])"

text \<open>
  One iteration of the loop over the regions. The outer \<open>catch\<close> takes what the
  foundation-models half throws and goes on to the next region; the inner \<open>catch\<close> takes
  what the inference-profiles half throws.
\<close>

definition fetchRegion ::
  "env \<Rightarrow> credentials \<Rightarrow> filters \<Rightarrow> string \<Rightarrow> string list \<Rightarrow> string list" where
  "fetchRegion env creds flt region allModels =
     (case foundationStep (getFoundationModels env creds region (queryParams flt)) allModels of
        Inl e \<Rightarrow> allModels
      | Inr models1 \<Rightarrow>
          (case profileStep (getInferenceProfiles env creds region) models1 of
             Inl e \<Rightarrow> models1
           | Inr models2 \<Rightarrow> models2))"

definition fetchBedrockModels_regions ::
  "env \<Rightarrow> credentials \<Rightarrow> string list \<Rightarrow> filters \<Rightarrow> string list" where
  "fetchBedrockModels_regions env creds rs flt = sort (fold (fetchRegion env creds flt) rs [])"

definition fetchBedrockModels_fanOut ::
  "env \<Rightarrow> credentials \<Rightarrow> string \<Rightarrow> filters \<Rightarrow> string list" where
  "fetchBedrockModels_fanOut env creds selectedRegion flt =
     fetchBedrockModels_regions env creds (regionsOf selectedRegion) flt"

section \<open>The orchestrator\<close>

record DiscoveryResult =
  availableModels :: "string list"
  catalogModels :: "BedrockModelInfo list"
  accessStatuses :: "ModelAccessStatus list"
  cliCommands :: "string list"

definition modelsNeedingAccess :: "ModelAccessStatus list \<Rightarrow> string list" where
  "modelsNeedingAccess sts =
     map accessModelId (filter (\<lambda>s. \<not> hasAccess s \<and> canRequestAccess s) sts)"

definition discoverAvailableModels ::
  "env \<Rightarrow> credentials \<Rightarrow> string \<Rightarrow> error + DiscoveryResult" where
  "discoverAvailableModels env creds region =
     bindE (fetchLatestModelCatalog env) (\<lambda>catalog.
     bindE (checkModelAccessStatus env creds region (map modelId catalog)) (\<lambda>statuses.
     bindE (fetchActuallyAvailableModels env creds region) (\<lambda>available.
     Inr \<lparr> availableModels = available, catalogModels = catalog,
           accessStatuses = statuses,
           cliCommands = generateAccessRequestCommands (modelsNeedingAccess statuses) region \<rparr>)))"

section \<open>Notions used to state the properties\<close>

text \<open>Eight digits follow one another from position \<open>i\<close> of \<open>s\<close>.\<close>

definition digits8At :: "string \<Rightarrow> nat \<Rightarrow> bool" where
  "digits8At s i = (i + 8 \<le> length s \<and> list_all isDigit (take 8 (drop i s)))"

text \<open>The elements of a list in the order in which they first occur.\<close>

fun firstOccurrences :: "'a list \<Rightarrow> 'a list" where
  "firstOccurrences [] = []"
| "firstOccurrences (x # xs) = x # removeAll x (firstOccurrences xs)"

text \<open>
  One group per provider namespace, in the order in which the namespaces first occur,
  each with its identifiers in their original order.
\<close>

definition groupsOf :: "string list \<Rightarrow> (string \<times> string list) list" where
  "groupsOf ids =
     map (\<lambda>p. (p, filter (\<lambda>m. providerOf m = p) ids)) (firstOccurrences (map providerOf ids))"

text \<open>The identifiers that the two halves of a region's queries contribute, given what each
  half yields when started on the empty set: nothing when the foundation-models half
  throws, else its identifiers and, unless the inference-profiles half throws, that
  half's as well.\<close>

definition contribution ::
  "error + string list \<Rightarrow> error + string list \<Rightarrow> string set" where
  "contribution found profs =
     (case found of
        Inl e \<Rightarrow> {}
      | Inr fs \<Rightarrow> set fs \<union> (case profs of Inl e \<Rightarrow> {} | Inr ps \<Rightarrow> set ps))"

text \<open>What the two halves contribute when the inference-profiles half runs first.\<close>

definition contribution_profilesFirst ::
  "error + string list \<Rightarrow> error + string list \<Rightarrow> string set" where
  "contribution_profilesFirst found profs =
     (case profs of Inl e \<Rightarrow> {} | Inr ps \<Rightarrow> set ps) \<union>
     (case found of Inl e \<Rightarrow> {} | Inr fs \<Rightarrow> set fs)"

text \<open>
  The loop body with the two queries of a region in the other order, each under the
  handler it has in the code: the inference-profiles half first, inside its own \<open>try\<close>,
  then the foundation-models half, whose throw the outer \<open>catch\<close> takes. The code does not
  run this; it is what the code's query order is compared with.
\<close>

definition fetchRegion_profilesFirst ::
  "env \<Rightarrow> credentials \<Rightarrow> filters \<Rightarrow> string \<Rightarrow> string list \<Rightarrow> string list" where
  "fetchRegion_profilesFirst env creds flt region allModels =
     (let models1 =
        (case profileStep (getInferenceProfiles env creds region) allModels of
           Inl e \<Rightarrow> allModels
         | Inr ms \<Rightarrow> ms)
      in case foundationStep (getFoundationModels env creds region (queryParams flt)) models1 of
           Inl e \<Rightarrow> models1
         | Inr models2 \<Rightarrow> models2)"

definition fetchBedrockModels_regions_profilesFirst ::
  "env \<Rightarrow> credentials \<Rightarrow> string list \<Rightarrow> filters \<Rightarrow> string list" where
  "fetchBedrockModels_regions_profilesFirst env creds rs flt =
     sort (fold (fetchRegion_profilesFirst env creds flt) rs [])"

section \<open>Sample worlds\<close>

text \<open>
  Concrete credentials, identifiers and worlds on which the properties below are run:
  a world where every call throws, one where every signed request is answered with a
  status outside 2xx, one whose document has no table, one whose model table has no rows,
  and one where everything answers.
\<close>


definition creds0 :: credentials where
  "creds0 = \<lparr> accessKeyId = ''AKIAEXAMPLE'', secretAccessKey = ''example-secret'' \<rparr>"

definition okResponse :: "'b \<Rightarrow> error + 'b response" where
  "okResponse body = Inr \<lparr> ok = True, json = Inr body \<rparr>"

definition deniedResponse :: "error + 'b response" where
  "deniedResponse = Inr \<lparr> ok = False, json = Inl JsonError \<rparr>"

definition env_offline :: env where
  "env_offline =
     \<lparr> docFetch = Inl TransportError,
       domParse = (\<lambda>html. Inl DomError),
       getModelAccess = (\<lambda>creds region. Inl TransportError),
       getFoundationModels = (\<lambda>creds region params. Inl TransportError),
       getInferenceProfiles = (\<lambda>creds region. Inl TransportError) \<rparr>"

definition env_denied :: env where
  "env_denied =
     \<lparr> docFetch = Inl TransportError,
       domParse = (\<lambda>html. Inl DomError),
       getModelAccess = (\<lambda>creds region. deniedResponse),
       getFoundationModels = (\<lambda>creds region params. deniedResponse),
       getInferenceProfiles = (\<lambda>creds region. deniedResponse) \<rparr>"

definition env_no_table :: env where
  "env_no_table =
     \<lparr> docFetch = Inr ''<html><body><p>Moved</p></body></html>'',
       domParse = (\<lambda>html. Inr []),
       getModelAccess = (\<lambda>creds region. okResponse (Some [])),
       getFoundationModels = (\<lambda>creds region params. okResponse (Some [])),
       getInferenceProfiles = (\<lambda>creds region. okResponse (Some [])) \<rparr>"

definition modelTableHeader :: "string list" where
  "modelTableHeader =
     [''Provider'', ''Model name'', ''Model ID'', ''Regions supported'',
      ''Input modalities'', ''Output modalities'', ''Streaming supported'']"

definition env_empty_table :: env where
  "env_empty_table =
     \<lparr> docFetch = Inr ''<table>...</table>'',
       domParse = (\<lambda>html. Inr [\<lparr> th_texts = modelTableHeader, tbody_rows = [] \<rparr>]),
       getModelAccess = (\<lambda>creds region. okResponse (Some [])),
       getFoundationModels = (\<lambda>creds region params. okResponse (Some [])),
       getInferenceProfiles = (\<lambda>creds region. okResponse (Some [])) \<rparr>"

definition sonnet35 :: string where
  "sonnet35 = ''anthropic.claude-3-5-sonnet-20241022-v2:0''"

definition sonnet45 :: string where
  "sonnet45 = ''anthropic.claude-sonnet-4-5-20250929-v1:0''"

definition usSonnet45 :: string where
  "usSonnet45 = ''us.anthropic.claude-sonnet-4-5-20250929-v1:0''"

definition titan :: string where
  "titan = ''amazon.titan-text-express-v1''"

definition env_live :: env where
  "env_live =
     \<lparr> docFetch = Inr ''<table>...</table>'',
       domParse = (\<lambda>html. Inr
         [ \<lparr> th_texts = [''Region'', ''Endpoint''], tbody_rows = [[''us-west-2'', ''bedrock'']] \<rparr>,
           \<lparr> th_texts = modelTableHeader,
             tbody_rows =
               [ [''Anthropic'', ''Claude 3.5 Sonnet v2'', sonnet35, ''us-east-1 us-west-2'',
                  ''Text, Image'', ''Text, Chat'', ''Yes''],
                 [''Anthropic'', '' Claude Sonnet 4.5 '', sonnet45, ''us-west-2 *'',
                  ''Text, Image'', ''Text'', ''Yes''],
                 [''Amazon'', ''Titan Text Express'', titan, ''us-east-1'', ''Text'', ''Text''],
                 [''footnote''] ] \<rparr> ]),
       getModelAccess = (\<lambda>creds region. okResponse (Some [sonnet35])),
       getFoundationModels = (\<lambda>creds region params.
         if region = ''us-west-2''
         then okResponse (Some
           [ \<lparr> fm_modelId = titan, fm_outputModalities = Some [''TEXT''],
               fm_lifecycleStatus = Some ''ACTIVE'' \<rparr>,
             \<lparr> fm_modelId = sonnet35, fm_outputModalities = Some [''TEXT''],
               fm_lifecycleStatus = Some ''ACTIVE'' \<rparr>,
             \<lparr> fm_modelId = ''amazon.titan-embed-text-v1'', fm_outputModalities = Some [''EMBEDDING''],
               fm_lifecycleStatus = Some ''ACTIVE'' \<rparr>,
             \<lparr> fm_modelId = ''anthropic.claude-v2'', fm_outputModalities = Some [''TEXT''],
               fm_lifecycleStatus = Some ''LEGACY'' \<rparr> ])
         else if region = ''us-east-1''
         then okResponse (Some
           [ \<lparr> fm_modelId = sonnet35, fm_outputModalities = Some [''TEXT''],
               fm_lifecycleStatus = Some ''ACTIVE'' \<rparr> ])
         else if region = ''eu-west-1'' then deniedResponse
         else Inl TransportError),
       getInferenceProfiles = (\<lambda>creds region.
         if region = ''us-west-2'' \<or> region = ''ap-northeast-1''
         then okResponse (Some
           [ \<lparr> ip_inferenceProfileId = usSonnet45, ip_status = Some ''ACTIVE'' \<rparr> ])
         else if region = ''eu-west-1''
         then okResponse (Some
           [ \<lparr> ip_inferenceProfileId = ''eu.anthropic.claude-sonnet-4-5-20250929-v1:0'',
               ip_status = Some ''ACTIVE'' \<rparr> ])
         else Inl TransportError) \<rparr>"

definition noFilters :: filters where
  "noFilters = \<lparr> filterProvider = None, filterOutputModality = None,
                 filterInferenceType = None, filterCustomizationType = None \<rparr>"

definition euSonnet45 :: string where
  "euSonnet45 = ''eu.anthropic.claude-sonnet-4-5-20250929-v1:0''"

definition opus4 :: string where
  "opus4 = ''anthropic.claude-opus-4-20250514-v1:0''"

definition sampleStatuses :: "ModelAccessStatus list" where
  "sampleStatuses = map (liveStatus {sonnet35}) [sonnet35, sonnet45, titan, opus4]"

section \<open>The gated-family predicate\<close>

lemma strIncludes_sublist: "strIncludes s pat \<longleftrightarrow> sublist pat s"
  by (induction s) (auto simp: sublist_Cons_right)

lemma strIncludes_trans: "strIncludes s p \<Longrightarrow> strIncludes p q \<Longrightarrow> strIncludes s q"
  unfolding strIncludes_sublist by (rule sublist_order.order_trans)

lemma anthropic_branch_covered:
  assumes "strIncludes mid ''claude-4'' \<or> strIncludes mid ''claude-sonnet-4'' \<or>
           strIncludes mid ''claude-opus-4'' \<or> strIncludes mid ''claude-haiku-4''"
  shows "list_ex (\<lambda>pattern. strIncludes mid pattern) accessRequiredPatterns"
proof -
  have s: "strIncludes ''claude-sonnet-4'' ''sonnet-4''" by simp
  have o: "strIncludes ''claude-opus-4'' ''opus-4''" by simp
  have h: "strIncludes ''claude-haiku-4'' ''haiku-4''" by simp
  from assms show ?thesis
    unfolding accessRequiredPatterns_def
    using strIncludes_trans [OF _ s] strIncludes_trans [OF _ o] strIncludes_trans [OF _ h]
    by auto
qed

lemma isModelRequiringAccess_patterns:
  "isModelRequiringAccess mid prov =
     list_ex (\<lambda>pattern. strIncludes mid pattern) accessRequiredPatterns"
  unfolding isModelRequiringAccess_def using anthropic_branch_covered [of mid] by auto



section \<open>Access status resolution\<close>

lemma checkModelAccessStatus_cases:
  "checkModelAccessStatus env creds region ids =
     (case getModelAccess env creds region of
        Inl e \<Rightarrow> Inr (map heuristicStatus ids)
      | Inr resp \<Rightarrow>
          if ok resp
          then (case json resp of
                  Inl e \<Rightarrow> Inr (map heuristicStatus ids)
                | Inr data \<Rightarrow> Inr (map (liveStatus (grantedModels data)) ids))
          else Inr [])"
  by (simp add: checkModelAccessStatus_def tryCatch_def bindE_def split: sum.splits)

lemma checkModelAccessStatus_total:
  "\<exists>sts. checkModelAccessStatus env creds region ids = Inr sts"
  by (simp add: checkModelAccessStatus_cases split: sum.splits)

text \<open>
  C10. Every status \<open>checkModelAccessStatus\<close> returns, from the live query or from the
  heuristic, has \<open>canRequestAccess = true\<close>; so on its result the orchestrator's filter
  \<open>!hasAccess && canRequestAccess\<close> selects the same statuses as \<open>!hasAccess\<close>.
\<close>

theorem checkModelAccessStatus_canRequestAccess:
  "\<exists>sts. checkModelAccessStatus env creds region ids = Inr sts \<and>
         (\<forall>s \<in> set sts. canRequestAccess s) \<and>
         filter (\<lambda>s. \<not> hasAccess s \<and> canRequestAccess s) sts = filter (\<lambda>s. \<not> hasAccess s) sts"
proof -
  obtain sts where sts: "checkModelAccessStatus env creds region ids = Inr sts"
    using checkModelAccessStatus_total by blast
  have all: "\<forall>s \<in> set sts. canRequestAccess s"
    using sts
    by (auto simp: checkModelAccessStatus_cases liveStatus_def heuristicStatus_def
             split: sum.splits if_splits)
  then have "filter (\<lambda>s. \<not> hasAccess s \<and> canRequestAccess s) sts = filter (\<lambda>s. \<not> hasAccess s) sts"
    by (auto intro: filter_cong)
  with sts all show ?thesis by blast
qed

theorem checkModelAccessStatus_canRequestAccess_witness:
  "\<exists>sts. checkModelAccessStatus env_offline creds0 ''us-west-2'' [titan, sonnet45] = Inr sts \<and>
         length sts = 2 \<and> list_all canRequestAccess sts \<and>
         map accessModelId (filter (\<lambda>s. \<not> hasAccess s) sts) = [sonnet45]"
  using checkModelAccessStatus_canRequestAccess
          [of env_offline creds0 "''us-west-2''" "[titan, sonnet45]"]
  by (simp add: checkModelAccessStatus_cases env_offline_def heuristicStatus_def
        isModelRequiringAccess_patterns accessRequiredPatterns_def titan_def sonnet45_def)

text \<open>
  Where the request throws, or answers 2xx (whether or not its body can then be read),
  the result has one status per requested identifier, in the order requested.
\<close>

lemma checkModelAccessStatus_one_per_id:
  assumes "(\<exists>e. getModelAccess env creds region = Inl e) \<or>
           (\<exists>resp. getModelAccess env creds region = Inr resp \<and> ok resp)"
  shows "\<exists>sts. checkModelAccessStatus env creds region ids = Inr sts \<and>
               map accessModelId sts = ids"
  using assms
  by (auto simp: checkModelAccessStatus_cases liveStatus_def heuristicStatus_def comp_def
           split: sum.splits)

text \<open>
  C2, as the specification states it: \<open>hasAccess = true\<close> implies \<open>state = GRANTED\<close> for
  every status produced. The heuristic tier refutes it: when the query throws, an
  identifier outside the gated families gets \<open>hasAccess = true\<close> with \<open>NOT_REQUESTED\<close>.
\<close>

theorem hasAccess_NOT_REQUESTED_counterexample:
  "checkModelAccessStatus env_offline creds0 ''us-west-2'' [titan] =
     Inr [\<lparr> accessModelId = titan, hasAccess = True, accessStatus = NOT_REQUESTED,
            canRequestAccess = True \<rparr>]"
  by (simp add: checkModelAccessStatus_cases env_offline_def heuristicStatus_def
        isModelRequiringAccess_patterns accessRequiredPatterns_def titan_def)

text \<open>
  C2, amended. In every tier \<open>state = GRANTED\<close> implies \<open>hasAccess = true\<close>. In the live
  tier (a 2xx response whose body is read) \<open>hasAccess\<close> holds exactly when the state is
  \<open>GRANTED\<close>, that is, when the identifier is among the granted ones. In the heuristic
  tier (the request or the reading of its body throws) the state is always
  \<open>NOT_REQUESTED\<close> and \<open>hasAccess\<close> holds exactly for the identifiers outside the gated
  families.
\<close>

theorem checkModelAccessStatus_state:
  assumes "checkModelAccessStatus env creds region ids = Inr sts" and "s \<in> set sts"
  shows "(accessStatus s = GRANTED \<longrightarrow> hasAccess s) \<and>
         (\<forall>resp data. getModelAccess env creds region = Inr resp \<and> ok resp \<and> json resp = Inr data \<longrightarrow>
            (hasAccess s \<longleftrightarrow> accessStatus s = GRANTED) \<and>
            (hasAccess s \<longleftrightarrow> accessModelId s \<in> grantedModels data)) \<and>
         ((\<exists>e. getModelAccess env creds region = Inl e) \<or>
          (\<exists>resp e. getModelAccess env creds region = Inr resp \<and> ok resp \<and> json resp = Inl e) \<longrightarrow>
            accessStatus s = NOT_REQUESTED \<and>
            (hasAccess s \<longleftrightarrow> \<not> isModelRequiringAccess (accessModelId s) []))"
  using assms
  by (auto simp: checkModelAccessStatus_cases liveStatus_def heuristicStatus_def
           split: sum.splits if_splits)

theorem checkModelAccessStatus_state_witness:
  "checkModelAccessStatus env_live creds0 ''us-west-2'' [sonnet35, sonnet45] =
     Inr [liveStatus {sonnet35} sonnet35, liveStatus {sonnet35} sonnet45] \<and>
   hasAccess (liveStatus {sonnet35} sonnet35) \<and>
   accessStatus (liveStatus {sonnet35} sonnet35) = GRANTED \<and>
   \<not> hasAccess (liveStatus {sonnet35} sonnet45) \<and>
   accessStatus (liveStatus {sonnet35} sonnet45) = NOT_REQUESTED \<and>
   checkModelAccessStatus env_offline creds0 ''us-west-2'' [sonnet45] =
     Inr [heuristicStatus sonnet45] \<and>
   \<not> hasAccess (heuristicStatus sonnet45) \<and>
   accessStatus (heuristicStatus sonnet45) = NOT_REQUESTED"
proof -
  have run: "checkModelAccessStatus env_live creds0 ''us-west-2'' [sonnet35, sonnet45] =
     Inr [liveStatus {sonnet35} sonnet35, liveStatus {sonnet35} sonnet45]"
    by (simp add: checkModelAccessStatus_cases env_live_def okResponse_def grantedModels_def)
  have q: "getModelAccess env_live creds0 ''us-west-2'' =
             Inr \<lparr> ok = True, json = Inr (Some [sonnet35]) \<rparr>"
    by (simp add: env_live_def okResponse_def)
  have neq: "sonnet45 \<noteq> sonnet35" by (simp add: sonnet45_def sonnet35_def)
  have run': "checkModelAccessStatus env_offline creds0 ''us-west-2'' [sonnet45] =
     Inr [heuristicStatus sonnet45]"
    by (simp add: checkModelAccessStatus_cases env_offline_def)
  have q': "getModelAccess env_offline creds0 ''us-west-2'' = Inl TransportError"
    by (simp add: env_offline_def)
  have gated: "isModelRequiringAccess sonnet45 []"
    by (simp add: isModelRequiringAccess_patterns accessRequiredPatterns_def sonnet45_def)
  from checkModelAccessStatus_state [OF run, of "liveStatus {sonnet35} sonnet35"]
       checkModelAccessStatus_state [OF run, of "liveStatus {sonnet35} sonnet45"]
       checkModelAccessStatus_state [OF run', of "heuristicStatus sonnet45"]
  show ?thesis using run q neq run' q' gated
    by (simp add: liveStatus_def grantedModels_def heuristicStatus_def)
qed

section \<open>Catalog acquisition: the tiers\<close>

lemma fetchLatestModelCatalog_cases:
  "fetchLatestModelCatalog env =
     (case docFetch env of
        Inl e \<Rightarrow> Inr getFallbackModelCatalog
      | Inr html \<Rightarrow>
          (case parseModelCatalog_try env html of
             Inl e \<Rightarrow> Inr []
           | Inr models \<Rightarrow> Inr (enhanceModelMetadata models)))"
  by (simp add: fetchLatestModelCatalog_def parseModelCatalogFromHTML_def tryCatch_def bindE_def
        enhanceModelMetadata_def split: sum.splits)

lemma fetchLatestModelCatalog_total: "\<exists>catalog. fetchLatestModelCatalog env = Inr catalog"
  by (simp add: fetchLatestModelCatalog_cases split: sum.splits)

lemma getFallbackModelCatalog_length: "length getFallbackModelCatalog = 6"
  by (simp add: getFallbackModelCatalog_def)

text \<open>The first of the three failures does reach the static catalog ...\<close>

lemma fetchLatestModelCatalog_fetch_throws:
  "docFetch env = Inl e \<Longrightarrow> fetchLatestModelCatalog env = Inr getFallbackModelCatalog"
  by (simp add: fetchLatestModelCatalog_cases)

text \<open>
  ... the other two do not: the parser's own \<open>catch\<close> swallows what \<open>DOMParser\<close> throws and
  the \<open>Model table not found\<close> error alike, and the catalog comes back empty.
\<close>

lemma fetchLatestModelCatalog_parse_throws:
  "docFetch env = Inr html \<Longrightarrow> domParse env html = Inl e \<Longrightarrow>
   fetchLatestModelCatalog env = Inr []"
  by (simp add: fetchLatestModelCatalog_cases parseModelCatalog_try_def bindE_def)

lemma fetchLatestModelCatalog_no_table:
  "docFetch env = Inr html \<Longrightarrow> domParse env html = Inr tables \<Longrightarrow>
   find isModelTable tables = None \<Longrightarrow> fetchLatestModelCatalog env = Inr []"
  by (simp add: fetchLatestModelCatalog_cases parseModelCatalog_try_def bindE_def)

text \<open>
  C1. On any failure of the first tier \<open>fetchLatestModelCatalog\<close> is to return the static
  fallback catalog. Run on a document that is fetched and has no table at all, it
  returns the empty catalog, not the six entries of the fallback.
\<close>

theorem fetchLatestModelCatalog_no_table_empty:
  "fetchLatestModelCatalog env_no_table = Inr [] \<and> length getFallbackModelCatalog = 6"
  by (simp add: fetchLatestModelCatalog_cases parseModelCatalog_try_def bindE_def
        env_no_table_def getFallbackModelCatalog_length)

section \<open>The release date\<close>

lemma digits8At_Nil: "\<not> digits8At [] i"
  by (simp add: digits8At_def)

lemma digits8At_0: "digits8At s 0 \<longleftrightarrow> 8 \<le> length s \<and> list_all isDigit (take 8 s)"
  by (simp add: digits8At_def)

lemma matchDigits8_Cons:
  "matchDigits8 (c # cs) =
     (if digits8At (c # cs) 0 then Some (take 8 (c # cs)) else matchDigits8 cs)"
  unfolding digits8At_0 by (rule matchDigits8.simps(2))

lemma digits8At_Cons_Suc: "digits8At (c # cs) (Suc i) \<longleftrightarrow> digits8At cs i"
  by (auto simp: digits8At_def)

lemma matchDigits8_None: "matchDigits8 s = None \<longleftrightarrow> (\<forall>i. \<not> digits8At s i)"
proof (induction s)
  case Nil
  show ?case by (simp add: digits8At_Nil)
next
  case (Cons c cs)
  show ?case
  proof (cases "digits8At (c # cs) 0")
    case True
    then have "matchDigits8 (c # cs) \<noteq> None" by (simp only: matchDigits8_Cons if_True) simp
    with True show ?thesis by blast
  next
    case False
    then have "matchDigits8 (c # cs) = matchDigits8 cs" by (simp only: matchDigits8_Cons if_False)
    moreover have "(\<forall>i. \<not> digits8At (c # cs) i) \<longleftrightarrow> (\<forall>i. \<not> digits8At cs i)"
    proof
      assume a: "\<forall>i. \<not> digits8At (c # cs) i"
      show "\<forall>i. \<not> digits8At cs i"
      proof
        fix i from a have "\<not> digits8At (c # cs) (Suc i)" by blast
        then show "\<not> digits8At cs i" by (simp add: digits8At_Cons_Suc)
      qed
    next
      assume a: "\<forall>i. \<not> digits8At cs i"
      show "\<forall>i. \<not> digits8At (c # cs) i"
      proof
        fix i show "\<not> digits8At (c # cs) i"
          using a False by (cases i) (simp_all add: digits8At_Cons_Suc)
      qed
    qed
    ultimately show ?thesis using Cons.IH by simp
  qed
qed

lemma matchDigits8_leftmost:
  "digits8At s i \<Longrightarrow> (\<forall>j<i. \<not> digits8At s j) \<Longrightarrow> matchDigits8 s = Some (take 8 (drop i s))"
proof (induction s arbitrary: i)
  case Nil
  then show ?case by (simp add: digits8At_Nil)
next
  case (Cons c cs)
  show ?case
  proof (cases i)
    case 0
    with Cons.prems(1) show ?thesis by (simp only: matchDigits8_Cons if_True drop_0)
  next
    case (Suc k)
    with Cons.prems have k: "digits8At cs k" and notfirst: "\<not> digits8At (c # cs) 0"
      by (simp_all add: digits8At_Cons_Suc)
    have "\<forall>j<k. \<not> digits8At cs j"
    proof (intro allI impI)
      fix j assume "j < k"
      then have "Suc j < i" using Suc by simp
      with Cons.prems(2) have "\<not> digits8At (c # cs) (Suc j)" by blast
      then show "\<not> digits8At cs j" by (simp add: digits8At_Cons_Suc)
    qed
    with k have "matchDigits8 cs = Some (take 8 (drop k cs))" by (rule Cons.IH)
    moreover from notfirst have "matchDigits8 (c # cs) = matchDigits8 cs"
      by (simp only: matchDigits8_Cons if_False)
    ultimately show ?thesis using Suc by (simp only: drop_Suc_Cons)
  qed
qed

lemma inferReleaseDate_None_iff:
  "inferReleaseDate mid = None \<longleftrightarrow> (\<forall>i. \<not> digits8At mid i)"
  using matchDigits8_None [of mid] by (auto simp: inferReleaseDate_def split: option.splits)

lemma inferReleaseDate_at_leftmost:
  assumes "digits8At mid i" and "\<forall>j<i. \<not> digits8At mid j"
  shows "inferReleaseDate mid =
           Some (take 4 (drop i mid) @ ''-'' @ take 2 (drop (i + 4) mid) @ ''-'' @
                 take 2 (drop (i + 6) mid))"
proof -
  from assms have "matchDigits8 mid = Some (take 8 (drop i mid))"
    by (rule matchDigits8_leftmost)
  then show ?thesis
    by (simp add: inferReleaseDate_def formatDate_def substring_def take_drop add.commute min_def)
qed

lemma matchDigits8_digits_prefix:
  assumes "list_all isDigit d" and "8 \<le> length d"
  shows "matchDigits8 (d @ rest) = Some (take 8 d)"
proof -
  from assms(2) obtain x d' where d: "d = x # d'" by (cases d) auto
  have w: "take 8 (d @ rest) = take 8 d" using assms(2) by simp
  have "list_all isDigit (take 8 d)"
    using assms(1) by (auto simp: list_all_iff dest: in_set_takeD)
  with w have dg: "digits8At (d @ rest) 0"
    using assms(2) by (simp add: digits8At_0)
  have e: "d @ rest = x # (d' @ rest)" by (simp add: d)
  have "matchDigits8 (x # (d' @ rest)) = Some (take 8 (x # (d' @ rest)))"
    using dg [unfolded e] by (simp only: matchDigits8_Cons if_True)
  then have "matchDigits8 (d @ rest) = Some (take 8 (d @ rest))" by (simp only: e)
  then show ?thesis by (simp only: w)
qed

lemma matchDigits8_skip:
  assumes "length cur < 8" and "\<not> isDigit c"
  shows "matchDigits8 (cur @ c # cs) = matchDigits8 cs"
  using assms(1)
proof (induction cur)
  case Nil
  have "\<not> digits8At (c # cs) 0"
    using assms(2) by (auto simp: digits8At_0)
  then show ?case by (simp only: append_Nil matchDigits8_Cons if_False)
next
  case (Cons x cur)
  have "c \<in> set (take 8 (x # cur @ c # cs))"
  proof -
    have "(x # cur @ c # cs) ! (Suc (length cur)) = c" by (simp add: nth_append)
    moreover have "Suc (length cur) < 8" using Cons.prems by simp
    moreover have "Suc (length cur) < length (x # cur @ c # cs)" by simp
    ultimately show ?thesis
      by (metis (no_types, lifting) in_set_conv_nth length_take min_less_iff_conj nth_take)
  qed
  then have "\<not> digits8At (x # cur @ c # cs) 0"
    using assms(2) by (auto simp: digits8At_0 list_all_iff)
  then have "matchDigits8 ((x # cur) @ c # cs) = matchDigits8 (cur @ c # cs)"
    by (simp only: append_Cons matchDigits8_Cons if_False)
  with Cons show ?case by simp
qed

lemma matchDigits8_short_digits:
  "length cur < 8 \<Longrightarrow> matchDigits8 cur = None"
  by (simp add: matchDigits8_None digits8At_def)

lemma matchDigits8_runs:
  "list_all isDigit cur \<Longrightarrow>
   matchDigits8 (cur @ s) =
     map_option (take 8) (find (\<lambda>r. 8 \<le> length r) (digitRunsFrom cur s))"
proof (induction s arbitrary: cur)
  case Nil
  show ?case
  proof (cases "8 \<le> length cur")
    case True
    with Nil matchDigits8_digits_prefix [of cur "[]"] show ?thesis by auto
  next
    case False
    then show ?thesis by (simp add: matchDigits8_short_digits)
  qed
next
  case (Cons c s)
  show ?case
  proof (cases "isDigit c")
    case True
    with Cons.prems have "list_all isDigit (cur @ [c])" by simp
    from Cons.IH [OF this] True show ?thesis by simp
  next
    case False
    show ?thesis
    proof (cases "8 \<le> length cur")
      case True
      with Cons.prems matchDigits8_digits_prefix [of cur "c # s"] False show ?thesis by auto
    next
      case short: False
      then have "matchDigits8 (cur @ c # s) = matchDigits8 s"
        using False by (intro matchDigits8_skip) simp_all
      also have "\<dots> = map_option (take 8) (find (\<lambda>r. 8 \<le> length r) (digitRunsFrom [] s))"
        using Cons.IH [of "[]"] by simp
      finally show ?thesis using False short by simp
    qed
  qed
qed

lemma inferReleaseDate_runs:
  "inferReleaseDate mid =
     (case find (\<lambda>r. 8 \<le> length r) (digitRuns mid) of
        Some d \<Rightarrow> Some (formatDate (take 8 d))
      | None \<Rightarrow> None)"
  using matchDigits8_runs [of "[]" mid]
  by (simp add: inferReleaseDate_def digitRuns_def split: option.splits)

lemma inferReleaseDate_agrees:
  assumes "\<forall>r \<in> set (digitRuns mid). length r \<le> 8"
  shows "inferReleaseDate mid = spec_releaseDate mid"
proof -
  have f: "find (\<lambda>r. 8 \<le> length r) rs = find (\<lambda>r. length r = 8) rs"
    if "\<forall>r \<in> set rs. length r \<le> 8" for rs :: "string list"
    using that by (induction rs) auto
  have t: "take 8 d = d" if "find (\<lambda>r. length r = 8) (digitRuns mid) = Some d" for d
    using that by (auto simp: find_Some_iff)
  show ?thesis
    using t by (auto simp: inferReleaseDate_runs spec_releaseDate_def f [OF assms] split: option.splits)
qed

text \<open>
  C8, as the specification states it: the release date comes from the first maximal run
  of exactly eight digits, and is unset when there is no such run. An identifier whose
  only run of digits has nine of them has no such run, and still gets a release date.
\<close>

theorem inferReleaseDate_nine_digits_counterexample:
  "inferReleaseDate ''m-202509291'' = Some ''2025-09-29'' \<and>
   digitRuns ''m-202509291'' = [''202509291''] \<and>
   spec_releaseDate ''m-202509291'' = None"
  by (simp add: inferReleaseDate_def formatDate_def substring_def isDigit_def
        spec_releaseDate_def digitRuns_def)

text \<open>
  C8, amended. The release date comes from the leftmost position at which eight digits
  follow one another, that is, from the first eight digits of the first maximal run of
  at least eight digits, read as \<open>YYYYMMDD\<close> and rendered \<open>YYYY-MM-DD\<close>; it is unset exactly
  when the identifier has no eight consecutive digits. Where no run of digits is longer
  than eight, this is the release date of the specification.
\<close>

theorem inferReleaseDate_leftmost:
  "(inferReleaseDate mid = None \<longleftrightarrow> (\<forall>i. \<not> digits8At mid i)) \<and>
   (\<forall>i. digits8At mid i \<and> (\<forall>j<i. \<not> digits8At mid j) \<longrightarrow>
        inferReleaseDate mid =
          Some (take 4 (drop i mid) @ ''-'' @ take 2 (drop (i + 4) mid) @ ''-'' @
                take 2 (drop (i + 6) mid))) \<and>
   inferReleaseDate mid =
     (case find (\<lambda>r. 8 \<le> length r) (digitRuns mid) of
        Some d \<Rightarrow> Some (formatDate (take 8 d))
      | None \<Rightarrow> None) \<and>
   ((\<forall>r \<in> set (digitRuns mid). length r \<le> 8) \<longrightarrow> inferReleaseDate mid = spec_releaseDate mid)"
proof (intro conjI allI impI)
  show "inferReleaseDate mid = None \<longleftrightarrow> (\<forall>i. \<not> digits8At mid i)"
    by (rule inferReleaseDate_None_iff)
  show "inferReleaseDate mid =
          Some (take 4 (drop i mid) @ ''-'' @ take 2 (drop (i + 4) mid) @ ''-'' @
                take 2 (drop (i + 6) mid))"
    if "digits8At mid i \<and> (\<forall>j<i. \<not> digits8At mid j)" for i
    using that by (intro inferReleaseDate_at_leftmost) simp_all
  show "inferReleaseDate mid =
     (case find (\<lambda>r. 8 \<le> length r) (digitRuns mid) of
        Some d \<Rightarrow> Some (formatDate (take 8 d))
      | None \<Rightarrow> None)"
    by (rule inferReleaseDate_runs)
  show "inferReleaseDate mid = spec_releaseDate mid"
    if "\<forall>r \<in> set (digitRuns mid). length r \<le> 8"
    using that by (rule inferReleaseDate_agrees)
qed

theorem inferReleaseDate_leftmost_witness:
  "digits8At sonnet45 28 \<and> \<not> digits8At sonnet45 27 \<and>
   digitRuns sonnet45 = [''4'', ''5'', ''20250929'', ''1'', ''0''] \<and>
   inferReleaseDate sonnet45 = Some ''2025-09-29'' \<and>
   spec_releaseDate sonnet45 = Some ''2025-09-29'' \<and>
   inferReleaseDate titan = None"
  using inferReleaseDate_leftmost [of sonnet45] inferReleaseDate_leftmost [of titan]
  by (simp add: digits8At_def sonnet45_def titan_def isDigit_def inferReleaseDate_def
        formatDate_def substring_def digitRuns_def spec_releaseDate_def)

section \<open>Command groups\<close>

lemma set_firstOccurrences: "set (firstOccurrences xs) = set xs"
  by (induction xs) auto

lemma distinct_firstOccurrences: "distinct (firstOccurrences xs)"
  by (induction xs) (auto simp: distinct_removeAll)

lemma firstOccurrences_snoc:
  "firstOccurrences (xs @ [y]) =
     (if y \<in> set xs then firstOccurrences xs else firstOccurrences xs @ [y])"
proof (induction xs)
  case Nil
  show ?case by simp
next
  case (Cons x xs)
  have notin: "y \<notin> set xs \<Longrightarrow> removeAll x (firstOccurrences xs) = removeAll x (firstOccurrences xs)"
    by simp
  show ?case using Cons.IH by (auto simp: set_firstOccurrences)
qed

lemma providerOf_takeWhile: "providerOf m = takeWhile (\<lambda>c. c \<noteq> CHR ''.'') m"
proof -
  have "splitOn d s \<noteq> [] \<and> hd (splitOn d s) = takeWhile (\<lambda>c. c \<noteq> d) s" for d s
    by (induction s) (auto split: list.splits)
  from this [of "CHR ''.''" m] show ?thesis
    by (cases "splitOn CHR ''.'' m") (simp_all add: providerOf_def)
qed

lemma groupStep_groupsOf: "groupStep x (groupsOf ids) = groupsOf (ids @ [x])"
proof (cases "providerOf x \<in> providerOf ` set ids")
  case True
  then have has: "mapHas (groupsOf ids) (providerOf x)"
    by (simp add: mapHas_def groupsOf_def comp_def set_firstOccurrences)
  show ?thesis
    using True has
    by (simp add: groupStep_def mapPush_def groupsOf_def firstOccurrences_snoc comp_def)
next
  case False
  then have has: "\<not> mapHas (groupsOf ids) (providerOf x)"
    by (simp add: mapHas_def groupsOf_def comp_def set_firstOccurrences)
  have other: "\<forall>m \<in> set ids. providerOf m \<noteq> providerOf x"
    using False by (metis imageI)
  then have none: "filter (\<lambda>m. providerOf m = providerOf x) ids = []"
    by (simp add: filter_empty_conv)
  have keys: "\<forall>p \<in> set (firstOccurrences (map providerOf ids)). p \<noteq> providerOf x"
    using other by (simp add: set_firstOccurrences)
  have snoc: "firstOccurrences (map providerOf ids @ [providerOf x]) =
                firstOccurrences (map providerOf ids) @ [providerOf x]"
    using False by (simp add: firstOccurrences_snoc)
  have push: "mapPush (providerOf x) x (groupsOf ids) = groupsOf ids"
    unfolding mapPush_def groupsOf_def using keys by (simp add: map_idI)
  have lhs: "groupStep x (groupsOf ids) = groupsOf ids @ [(providerOf x, [x])]"
    using has push by (simp add: groupStep_def Let_def) (simp add: mapPush_def)
  have old: "map (\<lambda>p. (p, filter (\<lambda>m. providerOf m = p) (ids @ [x])))
               (firstOccurrences (map providerOf ids)) = groupsOf ids"
    unfolding groupsOf_def using keys by (auto intro!: map_cong)
  have rhs: "groupsOf (ids @ [x]) = groupsOf ids @ [(providerOf x, [x])]"
    using old none by (simp add: groupsOf_def [of "ids @ [x]"] snoc)
  show ?thesis by (simp only: lhs rhs)
qed

lemma groupByProvider_groupsOf: "groupByProvider ids = groupsOf ids"
proof (induction ids rule: rev_induct)
  case Nil
  show ?case by (simp add: groupByProvider_def groupsOf_def)
next
  case (snoc x ids)
  then show ?case by (simp add: groupByProvider_def groupStep_groupsOf)
qed

lemma length_commandGroups: "length (concat (map (commandGroup region) gs)) = 6 * length gs"
  by (induction gs) (simp_all add: commandGroup_def Let_def)

lemma length_groupByProvider: "length (groupByProvider ids) = card (providerOf ` set ids)"
proof -
  have "length (firstOccurrences (map providerOf ids)) = card (set (firstOccurrences (map providerOf ids)))"
    by (simp add: distinct_card distinct_firstOccurrences)
  then show ?thesis by (simp add: groupByProvider_groupsOf groupsOf_def set_firstOccurrences)
qed

lemma generate_empty_iff: "generateAccessRequestCommands ids region = [] \<longleftrightarrow> ids = []"
proof -
  have "length (generateAccessRequestCommands ids region) = 6 * card (providerOf ` set ids)"
    by (simp add: generateAccessRequestCommands_def length_commandGroups length_groupByProvider)
  then have "generateAccessRequestCommands ids region = [] \<longleftrightarrow> card (providerOf ` set ids) = 0"
    by (metis length_0_conv mult_is_0 zero_neq_numeral)
  then show ?thesis by simp
qed

lemma joinWith_Cons: "joinWith sep (x # xs) = x @ concat (map (\<lambda>y. sep @ y) xs)"
  by (induction xs arbitrary: x) simp_all

lemma firstOccurrences_remdups: "firstOccurrences xs = rev (remdups (rev xs))"
  by (induction xs rule: rev_induct) (simp_all add: firstOccurrences_snoc)

lemma generateAccessRequestCommands_lines:
  "generateAccessRequestCommands ids region =
     concat (map (\<lambda>p.
         [ ''# Request access for '' @ p @ '' models'',
           ''aws bedrock put-model-access-request '' @ [CHR 0x5C],
           ''  --region '' @ region @ '' '' @ [CHR 0x5C],
           ''  --model-ids '' @
             (case filter (\<lambda>m. providerOf m = p) ids of
                [] \<Rightarrow> []
              | m # ms \<Rightarrow>
                  [CHR 0x22] @ m @ [CHR 0x22] @
                  concat (map (\<lambda>y. '' '' @ [CHR 0x22] @ y @ [CHR 0x22]) ms)) @
             '' '' @ [CHR 0x5C],
           ''  --access-request-reason '' @ [CHR 0x22] @
             ''Automated access request for Nanobrowser extension'' @ [CHR 0x22],
           [] ])
       (firstOccurrences (map providerOf ids)))"
proof -
  have j: "joinWith '' '' (map (\<lambda>m. [CHR 0x22] @ m @ [CHR 0x22]) ms) =
           (case ms of
              [] \<Rightarrow> []
            | m # ms' \<Rightarrow>
                [CHR 0x22] @ m @ [CHR 0x22] @
                concat (map (\<lambda>y. '' '' @ [CHR 0x22] @ y @ [CHR 0x22]) ms'))"
    for ms :: "string list"
    by (cases ms) (simp_all add: joinWith_Cons comp_def)
  show ?thesis
    unfolding generateAccessRequestCommands_def groupByProvider_groupsOf groupsOf_def
      map_map comp_def commandGroup_def Let_def fst_conv snd_conv j ..
qed

text \<open>
  C7. On the identifiers whose status has \<open>hasAccess = false\<close> and \<open>canRequestAccess = true\<close>,
  \<open>generateAccessRequestCommands\<close> returns, for each distinct provider namespace (the part of
  the identifier before its first dot) in the order in which the namespaces first occur,
  the six lines of one group: the comment naming the namespace, the command, the region,
  the quoted identifiers of that namespace in their original order separated by blanks,
  the fixed reason, and an empty line. There are as many groups as distinct namespaces,
  and none exactly when every status has \<open>hasAccess = true\<close> or \<open>canRequestAccess = false\<close>.
\<close>

theorem generateAccessRequestCommands_groups:
  "groupByProvider (modelsNeedingAccess sts) =
     map (\<lambda>p. (p, filter (\<lambda>m. providerOf m = p) (modelsNeedingAccess sts)))
       (firstOccurrences (map providerOf (modelsNeedingAccess sts))) \<and>
   generateAccessRequestCommands (modelsNeedingAccess sts) region =
     concat (map (commandGroup region) (groupByProvider (modelsNeedingAccess sts))) \<and>
   length (groupByProvider (modelsNeedingAccess sts)) =
     card (providerOf ` set (modelsNeedingAccess sts)) \<and>
   length (generateAccessRequestCommands (modelsNeedingAccess sts) region) =
     6 * length (groupByProvider (modelsNeedingAccess sts)) \<and>
   (groupByProvider (modelsNeedingAccess sts) = [] \<longleftrightarrow>
      (\<forall>s \<in> set sts. hasAccess s \<or> \<not> canRequestAccess s)) \<and>
   (generateAccessRequestCommands (modelsNeedingAccess sts) region = [] \<longleftrightarrow>
      (\<forall>s \<in> set sts. hasAccess s \<or> \<not> canRequestAccess s)) \<and>
   (\<forall>m. providerOf m = takeWhile (\<lambda>c. c \<noteq> CHR ''.'') m) \<and>
   generateAccessRequestCommands (modelsNeedingAccess sts) region =
     concat (map (\<lambda>p.
         [ ''# Request access for '' @ p @ '' models'',
           ''aws bedrock put-model-access-request '' @ [CHR 0x5C],
           ''  --region '' @ region @ '' '' @ [CHR 0x5C],
           ''  --model-ids '' @
             (case filter (\<lambda>m. providerOf m = p) (modelsNeedingAccess sts) of
                [] \<Rightarrow> []
              | m # ms \<Rightarrow>
                  [CHR 0x22] @ m @ [CHR 0x22] @
                  concat (map (\<lambda>y. '' '' @ [CHR 0x22] @ y @ [CHR 0x22]) ms)) @
             '' '' @ [CHR 0x5C],
           ''  --access-request-reason '' @ [CHR 0x22] @
             ''Automated access request for Nanobrowser extension'' @ [CHR 0x22],
           [] ])
       (firstOccurrences (map providerOf (modelsNeedingAccess sts)))) \<and>
   firstOccurrences (map providerOf (modelsNeedingAccess sts)) =
     rev (remdups (rev (map providerOf (modelsNeedingAccess sts)))) \<and>
   modelsNeedingAccess sts =
     map accessModelId (filter (\<lambda>s. \<not> hasAccess s \<and> canRequestAccess s) sts)"
proof -
  have e: "modelsNeedingAccess sts = [] \<longleftrightarrow> (\<forall>s \<in> set sts. hasAccess s \<or> \<not> canRequestAccess s)"
    by (auto simp: modelsNeedingAccess_def filter_empty_conv)
  have g: "groupByProvider (modelsNeedingAccess sts) = [] \<longleftrightarrow> modelsNeedingAccess sts = []"
    using length_groupByProvider [of "modelsNeedingAccess sts"]
    by (metis card_0_eq List.finite_set finite_imageI image_is_empty length_0_conv set_empty)
  have c1: "groupByProvider (modelsNeedingAccess sts) =
     map (\<lambda>p. (p, filter (\<lambda>m. providerOf m = p) (modelsNeedingAccess sts)))
       (firstOccurrences (map providerOf (modelsNeedingAccess sts)))"
    by (simp only: groupByProvider_groupsOf groupsOf_def)
  have c2: "generateAccessRequestCommands (modelsNeedingAccess sts) region =
     concat (map (commandGroup region) (groupByProvider (modelsNeedingAccess sts)))"
    by (simp only: generateAccessRequestCommands_def)
  have c4: "length (generateAccessRequestCommands (modelsNeedingAccess sts) region) =
     6 * length (groupByProvider (modelsNeedingAccess sts))"
    by (simp only: generateAccessRequestCommands_def length_commandGroups)
  have c6: "generateAccessRequestCommands (modelsNeedingAccess sts) region = [] \<longleftrightarrow>
      (\<forall>s \<in> set sts. hasAccess s \<or> \<not> canRequestAccess s)"
    using e by (simp only: generate_empty_iff)
  have c7: "\<forall>m. providerOf m = takeWhile (\<lambda>c. c \<noteq> CHR ''.'') m"
    by (simp only: providerOf_takeWhile) simp
  note c8 = generateAccessRequestCommands_lines [of "modelsNeedingAccess sts" region]
  note c9 = firstOccurrences_remdups [of "map providerOf (modelsNeedingAccess sts)"]
  note c10 = modelsNeedingAccess_def [of sts]
  from e g have c5: "groupByProvider (modelsNeedingAccess sts) = [] \<longleftrightarrow>
      (\<forall>s \<in> set sts. hasAccess s \<or> \<not> canRequestAccess s)" by simp
  show ?thesis
    by (intro conjI) (rule c1 c2 length_groupByProvider c4 c5 c6 c7 c8 c9 c10)+
qed

theorem generateAccessRequestCommands_groups_witness:
  "modelsNeedingAccess sampleStatuses = [sonnet45, titan, opus4] \<and>
   groupByProvider (modelsNeedingAccess sampleStatuses) =
     [(''anthropic'', [sonnet45, opus4]), (''amazon'', [titan])] \<and>
   length (generateAccessRequestCommands (modelsNeedingAccess sampleStatuses) ''us-west-2'') = 12 \<and>
   generateAccessRequestCommands (modelsNeedingAccess sampleStatuses) ''us-west-2'' =
     [ ''# Request access for anthropic models'',
       ''aws bedrock put-model-access-request '' @ [CHR 0x5C],
       ''  --region us-west-2 '' @ [CHR 0x5C],
       ''  --model-ids '' @ [CHR 0x22] @ sonnet45 @ [CHR 0x22] @ '' '' @
          [CHR 0x22] @ opus4 @ [CHR 0x22] @ '' '' @ [CHR 0x5C],
       ''  --access-request-reason '' @ [CHR 0x22] @
          ''Automated access request for Nanobrowser extension'' @ [CHR 0x22],
       [],
       ''# Request access for amazon models'',
       ''aws bedrock put-model-access-request '' @ [CHR 0x5C],
       ''  --region us-west-2 '' @ [CHR 0x5C],
       ''  --model-ids '' @ [CHR 0x22] @ titan @ [CHR 0x22] @ '' '' @ [CHR 0x5C],
       ''  --access-request-reason '' @ [CHR 0x22] @
          ''Automated access request for Nanobrowser extension'' @ [CHR 0x22],
       [] ]"
proof -
  have m: "modelsNeedingAccess sampleStatuses = [sonnet45, titan, opus4]"
    by (simp add: modelsNeedingAccess_def sampleStatuses_def liveStatus_def sonnet35_def
          sonnet45_def titan_def opus4_def)
  have p: "providerOf sonnet45 = ''anthropic''" "providerOf titan = ''amazon''"
          "providerOf opus4 = ''anthropic''"
    by (simp_all add: providerOf_takeWhile sonnet45_def titan_def opus4_def)
  note t = generateAccessRequestCommands_groups [of sampleStatuses "''us-west-2''", unfolded m]
  have g: "groupByProvider [sonnet45, titan, opus4] =
             [(''anthropic'', [sonnet45, opus4]), (''amazon'', [titan])]"
    using t [THEN conjunct1] by (simp add: p)
  have lines: "generateAccessRequestCommands [sonnet45, titan, opus4] ''us-west-2'' =
     [ ''# Request access for anthropic models'',
       ''aws bedrock put-model-access-request '' @ [CHR 0x5C],
       ''  --region us-west-2 '' @ [CHR 0x5C],
       ''  --model-ids '' @ [CHR 0x22] @ sonnet45 @ [CHR 0x22] @ '' '' @
          [CHR 0x22] @ opus4 @ [CHR 0x22] @ '' '' @ [CHR 0x5C],
       ''  --access-request-reason '' @ [CHR 0x22] @
          ''Automated access request for Nanobrowser extension'' @ [CHR 0x22],
       [],
       ''# Request access for amazon models'',
       ''aws bedrock put-model-access-request '' @ [CHR 0x5C],
       ''  --region us-west-2 '' @ [CHR 0x5C],
       ''  --model-ids '' @ [CHR 0x22] @ titan @ [CHR 0x22] @ '' '' @ [CHR 0x5C],
       ''  --access-request-reason '' @ [CHR 0x22] @
          ''Automated access request for Nanobrowser extension'' @ [CHR 0x22],
       [] ]"
    using t [THEN conjunct2, THEN conjunct2, THEN conjunct2, THEN conjunct2, THEN conjunct2,
             THEN conjunct2, THEN conjunct2, THEN conjunct1]
    by (simp add: p)
  have len: "length (generateAccessRequestCommands [sonnet45, titan, opus4] ''us-west-2'') = 12"
    by (simp only: lines) simp
  show ?thesis unfolding m using g lines len by (intro conjI) (rule refl, assumption+)
qed

section \<open>The region fan-out\<close>

lemma set_setAdd: "set (setAdd x xs) = insert x (set xs)"
  by (auto simp: setAdd_def)

lemma distinct_setAdd: "distinct xs \<Longrightarrow> distinct (setAdd x xs)"
  by (simp add: setAdd_def)

lemma set_fold_setAdd: "set (fold setAdd ys xs) = set xs \<union> set ys"
  by (induction ys arbitrary: xs) (auto simp: set_setAdd)

lemma distinct_fold_setAdd: "distinct xs \<Longrightarrow> distinct (fold setAdd ys xs)"
  by (induction ys arbitrary: xs) (simp_all add: distinct_setAdd)

lemma foundationStep_cases:
  "foundationStep r acc =
     (case r of
        Inl e \<Rightarrow> Inl e
      | Inr resp \<Rightarrow>
          if ok resp
          then (case json resp of Inl e \<Rightarrow> Inl e | Inr d \<Rightarrow> Inr (addFoundationModels d acc))
          else Inr acc)"
  by (simp add: foundationStep_def bindE_def split: sum.splits)

lemma profileStep_cases:
  "profileStep r acc =
     (case r of
        Inl e \<Rightarrow> Inl e
      | Inr resp \<Rightarrow>
          if ok resp
          then (case json resp of Inl e \<Rightarrow> Inl e | Inr d \<Rightarrow> Inr (addInferenceProfiles d acc))
          else Inr acc)"
  by (simp add: profileStep_def bindE_def split: sum.splits)

text \<open>What a half adds does not depend on what the set already holds.\<close>

lemma foundationStep_Inl: "foundationStep r acc = Inl e \<Longrightarrow> foundationStep r [] = Inl e"
  by (auto simp: foundationStep_cases split: sum.splits if_splits)

lemma foundationStep_Inr:
  "foundationStep r acc = Inr ms \<Longrightarrow>
   \<exists>new. foundationStep r [] = Inr new \<and> set ms = set acc \<union> set new \<and>
         (distinct acc \<longrightarrow> distinct ms)"
  by (auto simp: foundationStep_cases addFoundationModels_def set_fold_setAdd
        distinct_fold_setAdd split: sum.splits if_splits)

lemma profileStep_Inl: "profileStep r acc = Inl e \<Longrightarrow> profileStep r [] = Inl e"
  by (auto simp: profileStep_cases split: sum.splits if_splits)

lemma profileStep_Inr:
  "profileStep r acc = Inr ms \<Longrightarrow>
   \<exists>new. profileStep r [] = Inr new \<and> set ms = set acc \<union> set new \<and>
         (distinct acc \<longrightarrow> distinct ms)"
  by (auto simp: profileStep_cases addInferenceProfiles_def set_fold_setAdd
        distinct_fold_setAdd split: sum.splits if_splits)

lemma set_halves:
  "set (case foundationStep f acc of
          Inl e \<Rightarrow> acc
        | Inr models1 \<Rightarrow>
            (case profileStep p models1 of Inl e \<Rightarrow> models1 | Inr models2 \<Rightarrow> models2)) =
     set acc \<union> contribution (foundationStep f []) (profileStep p [])"
proof (cases "foundationStep f acc")
  case (Inl e)
  then have n: "foundationStep f [] = Inl e"
    by (rule foundationStep_Inl)
  show ?thesis by (simp add: Inl n contribution_def)
next
  case (Inr ms)
  note f1 = this
  from foundationStep_Inr [OF f1] obtain new where
    new: "foundationStep f [] = Inr new" and ms: "set ms = set acc \<union> set new"
    by (elim exE conjE)
  show ?thesis
  proof (cases "profileStep p ms")
    case (Inl e)
    then have n2: "profileStep p [] = Inl e"
      by (rule profileStep_Inl)
    show ?thesis by (simp add: f1 Inl new n2 contribution_def ms)
  next
    case (Inr ms2)
    note p1 = this
    from profileStep_Inr [OF p1] obtain new2 where
      new2: "profileStep p [] = Inr new2" and ms2: "set ms2 = set ms \<union> set new2"
      by (elim exE conjE)
    show ?thesis by (simp add: f1 p1 new new2 contribution_def ms ms2 Un_assoc)
  qed
qed

lemma set_fetchRegion:
  "set (fetchRegion env creds flt r acc) =
     set acc \<union> contribution (foundationStep (getFoundationModels env creds r (queryParams flt)) [])
                              (profileStep (getInferenceProfiles env creds r) [])"
  unfolding fetchRegion_def by (rule set_halves)

lemma distinct_halves:
  assumes "distinct acc"
  shows "distinct (case foundationStep f acc of
                     Inl e \<Rightarrow> acc
                   | Inr models1 \<Rightarrow>
                       (case profileStep p models1 of Inl e \<Rightarrow> models1 | Inr models2 \<Rightarrow> models2))"
proof (cases "foundationStep f acc")
  case (Inl e)
  with assms show ?thesis by simp
next
  case (Inr models1)
  from foundationStep_Inr [OF Inr] assms have d1: "distinct models1" by blast
  show ?thesis
  proof (cases "profileStep p models1")
    case (Inl e)
    with Inr d1 show ?thesis by simp
  next
    case (Inr models2)
    from profileStep_Inr [OF Inr] d1 have "distinct models2" by blast
    with Inr \<open>foundationStep f acc = Inr models1\<close> show ?thesis by simp
  qed
qed

lemma distinct_fetchRegion:
  "distinct acc \<Longrightarrow> distinct (fetchRegion env creds flt r acc)"
  unfolding fetchRegion_def by (rule distinct_halves)

lemma set_fold_fetchRegion:
  "set (fold (fetchRegion env creds flt) rs acc) =
     set acc \<union> (\<Union>r \<in> set rs. set (fetchRegion env creds flt r []))"
proof (induction rs arbitrary: acc)
  case Nil
  show ?case by simp
next
  case (Cons r rs)
  have "set (fetchRegion env creds flt r acc) = set acc \<union> set (fetchRegion env creds flt r [])"
    by (simp add: set_fetchRegion [of env creds flt r acc] set_fetchRegion [of env creds flt r "[]"])
  then show ?case by (simp add: Cons.IH Un_assoc)
qed

lemma distinct_fold_fetchRegion:
  "distinct acc \<Longrightarrow> distinct (fold (fetchRegion env creds flt) rs acc)"
  by (induction rs arbitrary: acc) (simp_all add: distinct_fetchRegion)

lemma set_fetchBedrockModels_regions:
  "set (fetchBedrockModels_regions env creds rs flt) =
     (\<Union>r \<in> set rs. set (fetchRegion env creds flt r []))"
  by (simp add: fetchBedrockModels_regions_def set_fold_fetchRegion)

lemma sorted_distinct_fetchBedrockModels_regions:
  "sorted (fetchBedrockModels_regions env creds rs flt) \<and>
   distinct (fetchBedrockModels_regions env creds rs flt)"
  by (simp add: fetchBedrockModels_regions_def distinct_fold_fetchRegion)

lemma fetchBedrockModels_regions_set_eq:
  assumes "set rs' = set rs"
  shows "fetchBedrockModels_regions env creds rs' flt = fetchBedrockModels_regions env creds rs flt"
proof (rule sorted_distinct_set_unique)
  show "set (fetchBedrockModels_regions env creds rs' flt) =
        set (fetchBedrockModels_regions env creds rs flt)"
    by (simp add: set_fetchBedrockModels_regions assms)
qed (simp_all add: sorted_distinct_fetchBedrockModels_regions)

lemma fetchActuallyAvailableModels_sorted:
  "\<exists>ms. fetchActuallyAvailableModels env creds region = Inr ms \<and> sorted ms \<and> distinct ms"
proof -
  have "distinct (case foundationStep (getFoundationModels env creds region []) [] of
                     Inl e \<Rightarrow> []
                   | Inr models1 \<Rightarrow>
                       (case profileStep (getInferenceProfiles env creds region) models1 of
                          Inl e \<Rightarrow> models1 | Inr models2 \<Rightarrow> models2))"
    by (rule distinct_halves) simp
  then show ?thesis by (simp add: fetchActuallyAvailableModels_def Let_def)
qed

text \<open>Runs of one region of the sample world.\<close>

lemma live_ap: "fetchRegion env_live creds0 noFilters ''ap-northeast-1'' acc = acc"
  by (simp add: fetchRegion_def foundationStep_cases env_live_def)

lemma live_eu: "fetchRegion env_live creds0 noFilters ''eu-west-1'' [] = [euSonnet45]"
  by (simp add: fetchRegion_def foundationStep_cases profileStep_cases env_live_def
        deniedResponse_def okResponse_def addInferenceProfiles_def setAdd_def euSonnet45_def)

lemma live_ap_profiles:
  "profileStep (getInferenceProfiles env_live creds0 ''ap-northeast-1'') [] = Inr [usSonnet45]"
  by (simp add: profileStep_cases env_live_def okResponse_def addInferenceProfiles_def setAdd_def)

lemma live_us: "fetchRegion env_live creds0 noFilters ''us-west-2'' [] = [titan, sonnet35, usSonnet45]"
  by (simp add: fetchRegion_def foundationStep_cases profileStep_cases env_live_def
        okResponse_def addInferenceProfiles_def addFoundationModels_def isActiveTextModel_def
        setAdd_def titan_def sonnet35_def usSonnet45_def)

lemma fetchRegion_cong:
  assumes "getFoundationModels env' creds r (queryParams flt) =
           getFoundationModels env creds r (queryParams flt)"
    and "getInferenceProfiles env' creds r = getInferenceProfiles env creds r"
  shows "fetchRegion env' creds flt r acc = fetchRegion env creds flt r acc"
  unfolding fetchRegion_def assms ..

lemma fold_fetchRegion_cong:
  assumes "\<forall>r \<in> set rs.
             getFoundationModels env' creds r (queryParams flt) =
               getFoundationModels env creds r (queryParams flt) \<and>
             getInferenceProfiles env' creds r = getInferenceProfiles env creds r"
  shows "fold (fetchRegion env' creds flt) rs acc = fold (fetchRegion env creds flt) rs acc"
  using assms
proof (induction rs arbitrary: acc)
  case Nil
  show ?case by simp
next
  case (Cons r rs)
  from Cons.prems have "fetchRegion env' creds flt r acc = fetchRegion env creds flt r acc"
    by (intro fetchRegion_cong) simp_all
  moreover from Cons.prems have
    "fold (fetchRegion env' creds flt) rs (fetchRegion env creds flt r acc) =
     fold (fetchRegion env creds flt) rs (fetchRegion env creds flt r acc)"
    by (intro Cons.IH) simp
  ultimately show ?case by simp
qed

lemma sample_sorted:
  "sorted [titan, sonnet35, euSonnet45, usSonnet45] \<and>
   distinct [titan, sonnet35, euSonnet45, usSonnet45]"
  by code_simp

lemma live_us_eu:
  "fetchBedrockModels_regions env_live creds0 [''us-west-2'', ''eu-west-1''] noFilters =
     [titan, sonnet35, euSonnet45, usSonnet45]"
proof (rule sorted_distinct_set_unique)
  show "set (fetchBedrockModels_regions env_live creds0 [''us-west-2'', ''eu-west-1''] noFilters) =
        set [titan, sonnet35, euSonnet45, usSonnet45]"
    by (auto simp: set_fetchBedrockModels_regions live_us live_eu)
  show "sorted (fetchBedrockModels_regions env_live creds0 [''us-west-2'', ''eu-west-1''] noFilters)"
    and "distinct (fetchBedrockModels_regions env_live creds0 [''us-west-2'', ''eu-west-1''] noFilters)"
    by (simp_all only: sorted_distinct_fetchBedrockModels_regions)
  show "sorted [titan, sonnet35, euSonnet45, usSonnet45]"
    and "distinct [titan, sonnet35, euSonnet45, usSonnet45]"
    by (simp_all only: sample_sorted)
qed

lemma set_fetchRegion_profilesFirst:
  "set (fetchRegion_profilesFirst env creds flt r acc) =
     set acc \<union>
     contribution_profilesFirst
       (foundationStep (getFoundationModels env creds r (queryParams flt)) [])
       (profileStep (getInferenceProfiles env creds r) [])"
proof -
  define p where "p = getInferenceProfiles env creds r"
  define f where "f = getFoundationModels env creds r (queryParams flt)"
  define models1 where
    "models1 = (case profileStep p acc of Inl e \<Rightarrow> acc | Inr ms \<Rightarrow> ms)"
  have m1: "set models1 = set acc \<union> (case profileStep p [] of Inl e \<Rightarrow> {} | Inr ps \<Rightarrow> set ps)"
  proof (cases "profileStep p acc")
    case (Inl e)
    then have "profileStep p [] = Inl e" by (rule profileStep_Inl)
    with Inl show ?thesis by (simp add: models1_def)
  next
    case (Inr ms)
    from profileStep_Inr [OF Inr] obtain new where
      "profileStep p [] = Inr new" "set ms = set acc \<union> set new" by (elim exE conjE)
    with Inr show ?thesis by (simp add: models1_def)
  qed
  have m2: "set (case foundationStep f models1 of Inl e \<Rightarrow> models1 | Inr models2 \<Rightarrow> models2) =
            set models1 \<union> (case foundationStep f [] of Inl e \<Rightarrow> {} | Inr fs \<Rightarrow> set fs)"
  proof (cases "foundationStep f models1")
    case (Inl e)
    then have "foundationStep f [] = Inl e" by (rule foundationStep_Inl)
    with Inl show ?thesis by simp
  next
    case (Inr ms)
    from foundationStep_Inr [OF Inr] obtain new where
      "foundationStep f [] = Inr new" "set ms = set models1 \<union> set new" by (elim exE conjE)
    with Inr show ?thesis by simp
  qed
  have "fetchRegion_profilesFirst env creds flt r acc =
          (case foundationStep f models1 of Inl e \<Rightarrow> models1 | Inr models2 \<Rightarrow> models2)"
    unfolding fetchRegion_profilesFirst_def Let_def p_def f_def models1_def by (rule refl)
  then show ?thesis
    by (simp only: m2 m1 contribution_profilesFirst_def p_def [symmetric] f_def [symmetric] Un_assoc)
qed

lemma distinct_fetchRegion_profilesFirst:
  assumes "distinct acc"
  shows "distinct (fetchRegion_profilesFirst env creds flt r acc)"
proof -
  define p where "p = getInferenceProfiles env creds r"
  define f where "f = getFoundationModels env creds r (queryParams flt)"
  define models1 where
    "models1 = (case profileStep p acc of Inl e \<Rightarrow> acc | Inr ms \<Rightarrow> ms)"
  have d1: "distinct models1"
  proof (cases "profileStep p acc")
    case (Inl e)
    with assms show ?thesis by (simp add: models1_def)
  next
    case (Inr ms)
    from profileStep_Inr [OF Inr] assms have "distinct ms" by blast
    with Inr show ?thesis by (simp add: models1_def)
  qed
  have d2: "distinct (case foundationStep f models1 of Inl e \<Rightarrow> models1 | Inr models2 \<Rightarrow> models2)"
  proof (cases "foundationStep f models1")
    case (Inl e)
    with d1 show ?thesis by simp
  next
    case (Inr ms)
    from foundationStep_Inr [OF Inr] d1 have "distinct ms" by blast
    with Inr show ?thesis by simp
  qed
  have "fetchRegion_profilesFirst env creds flt r acc =
          (case foundationStep f models1 of Inl e \<Rightarrow> models1 | Inr models2 \<Rightarrow> models2)"
    unfolding fetchRegion_profilesFirst_def Let_def p_def f_def models1_def by (rule refl)
  with d2 show ?thesis by simp
qed

lemma set_fold_fetchRegion_profilesFirst:
  "set (fold (fetchRegion_profilesFirst env creds flt) rs acc) =
     set acc \<union> (\<Union>r \<in> set rs. set (fetchRegion_profilesFirst env creds flt r []))"
proof (induction rs arbitrary: acc)
  case Nil
  show ?case by simp
next
  case (Cons r rs)
  have "set (fetchRegion_profilesFirst env creds flt r acc) =
        set acc \<union> set (fetchRegion_profilesFirst env creds flt r [])"
    by (simp add: set_fetchRegion_profilesFirst [of env creds flt r acc]
          set_fetchRegion_profilesFirst [of env creds flt r "[]"])
  then show ?case by (simp add: Cons.IH Un_assoc)
qed

lemma distinct_fold_fetchRegion_profilesFirst:
  "distinct acc \<Longrightarrow> distinct (fold (fetchRegion_profilesFirst env creds flt) rs acc)"
  by (induction rs arbitrary: acc) (simp_all add: distinct_fetchRegion_profilesFirst)

lemma contribution_orders_agree:
  assumes "\<forall>e. found \<noteq> Inl e"
  shows "contribution_profilesFirst found profs = contribution found profs"
  using assms by (cases found) (auto simp: contribution_profilesFirst_def contribution_def)

lemma profilesFirst_agrees:
  assumes "\<forall>r \<in> set rs. \<forall>e.
             foundationStep (getFoundationModels env creds r (queryParams flt)) [] \<noteq> Inl e"
  shows "fetchBedrockModels_regions_profilesFirst env creds rs flt =
         fetchBedrockModels_regions env creds rs flt"
proof (rule sorted_distinct_set_unique)
  have "set (fetchRegion_profilesFirst env creds flt r []) = set (fetchRegion env creds flt r [])"
    if "r \<in> set rs" for r
  proof -
    from assms that have "\<forall>e. foundationStep (getFoundationModels env creds r (queryParams flt)) [] \<noteq> Inl e"
      by blast
    then show ?thesis
      by (simp add: set_fetchRegion_profilesFirst set_fetchRegion contribution_orders_agree)
  qed
  then show "set (fetchBedrockModels_regions_profilesFirst env creds rs flt) =
             set (fetchBedrockModels_regions env creds rs flt)"
    by (simp add: fetchBedrockModels_regions_profilesFirst_def set_fold_fetchRegion_profilesFirst
          set_fetchBedrockModels_regions)
  show "sorted (fetchBedrockModels_regions_profilesFirst env creds rs flt)"
    and "distinct (fetchBedrockModels_regions_profilesFirst env creds rs flt)"
    by (simp_all add: fetchBedrockModels_regions_profilesFirst_def
          distinct_fold_fetchRegion_profilesFirst)
  show "sorted (fetchBedrockModels_regions env creds rs flt)"
    and "distinct (fetchBedrockModels_regions env creds rs flt)"
    by (simp_all only: sorted_distinct_fetchBedrockModels_regions)
qed

lemma live_ap_profilesFirst:
  "fetchRegion_profilesFirst env_live creds0 noFilters ''ap-northeast-1'' [] = [usSonnet45]"
  by (simp add: fetchRegion_profilesFirst_def Let_def live_ap_profiles foundationStep_cases)
     (simp add: env_live_def)

lemma live_no_throw:
  "foundationStep (getFoundationModels env_live creds0 ''us-west-2'' (queryParams noFilters)) [] \<noteq> Inl e \<and>
   foundationStep (getFoundationModels env_live creds0 ''eu-west-1'' (queryParams noFilters)) [] \<noteq> Inl e"
  by (simp add: foundationStep_cases env_live_def okResponse_def deniedResponse_def)

text \<open>
  C6, as the specification states it: the result is the same whatever the order of the
  regions and whatever the order of the two queries of a region. The second part fails:
  where the foundation-models request throws, the code, which asks for the foundation
  models first, adds nothing for the region, while asking for the inference profiles
  first adds the region's profile.
\<close>

theorem query_order_matters_counterexample:
  "fetchBedrockModels_regions env_live creds0 [''ap-northeast-1''] noFilters = [] \<and>
   fetchBedrockModels_regions_profilesFirst env_live creds0 [''ap-northeast-1''] noFilters =
     [usSonnet45]"
  by (simp add: fetchBedrockModels_regions_def fetchBedrockModels_regions_profilesFirst_def
        live_ap live_ap_profilesFirst)

text \<open>
  C6, amended. The result of the fan-out has no duplicates and is sorted in ascending
  lexicographic order, and it does not depend on the order of the regions: a permuted
  region list (indeed any list with the same regions) gives the same sequence. It
  depends on the world only through the answers to the two requests of each region
  listed. The order of the two queries of a region is fixed by the code and matters
  only where the foundation-models half throws: over regions where it does not, asking
  for the inference profiles first gives the same sequence. The single-region
  \<open>fetchActuallyAvailableModels\<close> returns a sorted list without duplicates as well.
\<close>

theorem fanOut_sorted_order_independent:
  "sorted (fetchBedrockModels_regions env creds rs flt) \<and>
   distinct (fetchBedrockModels_regions env creds rs flt) \<and>
   (mset rs' = mset rs \<longrightarrow>
      fetchBedrockModels_regions env creds rs' flt = fetchBedrockModels_regions env creds rs flt) \<and>
   (set rs' = set rs \<longrightarrow>
      fetchBedrockModels_regions env creds rs' flt = fetchBedrockModels_regions env creds rs flt) \<and>
   ((\<forall>r \<in> set rs.
        getFoundationModels env' creds r (queryParams flt) =
          getFoundationModels env creds r (queryParams flt) \<and>
        getInferenceProfiles env' creds r = getInferenceProfiles env creds r) \<longrightarrow>
      fetchBedrockModels_regions env' creds rs flt = fetchBedrockModels_regions env creds rs flt) \<and>
   (\<exists>ms. fetchActuallyAvailableModels env creds region = Inr ms \<and> sorted ms \<and> distinct ms) \<and>
   ((\<forall>r \<in> set rs. \<forall>e.
        foundationStep (getFoundationModels env creds r (queryParams flt)) [] \<noteq> Inl e) \<longrightarrow>
      fetchBedrockModels_regions_profilesFirst env creds rs flt =
        fetchBedrockModels_regions env creds rs flt)"
proof (intro conjI impI)
  show "sorted (fetchBedrockModels_regions env creds rs flt)"
    by (simp add: sorted_distinct_fetchBedrockModels_regions)
  show "distinct (fetchBedrockModels_regions env creds rs flt)"
    by (simp add: sorted_distinct_fetchBedrockModels_regions)
  show "fetchBedrockModels_regions env creds rs' flt = fetchBedrockModels_regions env creds rs flt"
    if "mset rs' = mset rs"
    using that by (intro fetchBedrockModels_regions_set_eq mset_eq_setD)
  show "fetchBedrockModels_regions env creds rs' flt = fetchBedrockModels_regions env creds rs flt"
    if "set rs' = set rs"
    using that by (rule fetchBedrockModels_regions_set_eq)
  show "fetchBedrockModels_regions env' creds rs flt = fetchBedrockModels_regions env creds rs flt"
    if "\<forall>r \<in> set rs.
          getFoundationModels env' creds r (queryParams flt) =
            getFoundationModels env creds r (queryParams flt) \<and>
          getInferenceProfiles env' creds r = getInferenceProfiles env creds r"
    unfolding fetchBedrockModels_regions_def
    by (simp only: fold_fetchRegion_cong [OF that])
  show "\<exists>ms. fetchActuallyAvailableModels env creds region = Inr ms \<and> sorted ms \<and> distinct ms"
    by (rule fetchActuallyAvailableModels_sorted)
  show "fetchBedrockModels_regions_profilesFirst env creds rs flt =
        fetchBedrockModels_regions env creds rs flt"
    if "\<forall>r \<in> set rs. \<forall>e.
          foundationStep (getFoundationModels env creds r (queryParams flt)) [] \<noteq> Inl e"
    using that by (rule profilesFirst_agrees)
qed

theorem fanOut_sorted_order_independent_witness:
  "fetchBedrockModels_regions env_live creds0 [''eu-west-1'', ''us-west-2''] noFilters =
     [titan, sonnet35, euSonnet45, usSonnet45] \<and>
   fetchBedrockModels_regions env_live creds0 [''us-west-2'', ''eu-west-1''] noFilters =
     [titan, sonnet35, euSonnet45, usSonnet45] \<and>
   sorted [titan, sonnet35, euSonnet45, usSonnet45] \<and>
   fetchBedrockModels_regions_profilesFirst env_live creds0 [''us-west-2'', ''eu-west-1''] noFilters =
     [titan, sonnet35, euSonnet45, usSonnet45]"
proof -
  have m: "mset [''eu-west-1'', ''us-west-2''] = mset [''us-west-2'', ''eu-west-1'']"
    by (simp add: add_mset_commute)
  from fanOut_sorted_order_independent
         [of env_live creds0 "[''us-west-2'', ''eu-west-1'']" noFilters
             "[''eu-west-1'', ''us-west-2'']" env_live] m
  show ?thesis by (simp add: live_us_eu sample_sorted live_no_throw)
qed

lemma fetchRegion_foundation_non_2xx:
  "getFoundationModels env creds r (queryParams flt) = Inr resp \<Longrightarrow> \<not> ok resp \<Longrightarrow>
   fetchRegion env creds flt r [] =
     (case profileStep (getInferenceProfiles env creds r) [] of Inl e \<Rightarrow> [] | Inr ps \<Rightarrow> ps)"
  by (simp add: fetchRegion_def foundationStep_cases)

text \<open>
  C4, as the specification states it: a failure of the foundation-models query, thrown
  or not 2xx, never keeps the inference-profiles query of the same region from
  contributing. Where the foundation-models request throws, the outer \<open>catch\<close> ends the
  region's iteration: the profile the region would report is missing from the result.
\<close>

theorem foundation_throw_skips_profiles_counterexample:
  "getFoundationModels env_live creds0 ''ap-northeast-1'' (queryParams noFilters) = Inl TransportError \<and>
   profileStep (getInferenceProfiles env_live creds0 ''ap-northeast-1'') [] = Inr [usSonnet45] \<and>
   fetchBedrockModels_regions env_live creds0 [''ap-northeast-1''] noFilters = []"
  by (simp add: live_ap_profiles fetchBedrockModels_regions_def live_ap) (simp add: env_live_def)

text \<open>
  C4, amended. Every region contributes independently of the others: the merged set is
  the union of what each region contributes on its own, so no failure in one region
  aborts another. Within a region, a foundation-models response that is not 2xx adds
  nothing and leaves the inference-profiles query to contribute, and a failure of the
  inference-profiles query leaves the foundation-models identifiers in the set; but
  when the foundation-models request throws, or its 2xx body cannot be read, the region
  contributes nothing at all.
\<close>

theorem fanOut_fault_tolerance:
  "set (fetchBedrockModels_regions env creds rs flt) =
     (\<Union>r \<in> set rs. set (fetchRegion env creds flt r [])) \<and>
   (\<forall>r. set (fetchRegion env creds flt r []) =
      contribution (foundationStep (getFoundationModels env creds r (queryParams flt)) [])
                   (profileStep (getInferenceProfiles env creds r) [])) \<and>
   (\<forall>r resp. getFoundationModels env creds r (queryParams flt) = Inr resp \<and> \<not> ok resp \<longrightarrow>
      fetchRegion env creds flt r [] =
        (case profileStep (getInferenceProfiles env creds r) [] of Inl e \<Rightarrow> [] | Inr ps \<Rightarrow> ps)) \<and>
   (\<forall>r e. getFoundationModels env creds r (queryParams flt) = Inl e \<longrightarrow>
      fetchRegion env creds flt r [] = []) \<and>
   (\<forall>r resp e. getFoundationModels env creds r (queryParams flt) = Inr resp \<and> ok resp \<and>
      json resp = Inl e \<longrightarrow> fetchRegion env creds flt r [] = [])"
proof (intro conjI allI impI)
  show "set (fetchBedrockModels_regions env creds rs flt) =
          (\<Union>r \<in> set rs. set (fetchRegion env creds flt r []))"
    by (rule set_fetchBedrockModels_regions)
  show "set (fetchRegion env creds flt r []) =
      contribution (foundationStep (getFoundationModels env creds r (queryParams flt)) [])
                   (profileStep (getInferenceProfiles env creds r) [])" for r
    by (simp add: set_fetchRegion)
  show "fetchRegion env creds flt r [] =
        (case profileStep (getInferenceProfiles env creds r) [] of Inl e \<Rightarrow> [] | Inr ps \<Rightarrow> ps)"
    if "getFoundationModels env creds r (queryParams flt) = Inr resp \<and> \<not> ok resp" for r resp
    using that by (simp add: fetchRegion_foundation_non_2xx)
  show "fetchRegion env creds flt r [] = []"
    if "getFoundationModels env creds r (queryParams flt) = Inl e" for r e
    using that by (simp add: fetchRegion_def foundationStep_cases)
  show "fetchRegion env creds flt r [] = []"
    if "getFoundationModels env creds r (queryParams flt) = Inr resp \<and> ok resp \<and> json resp = Inl e"
    for r resp e
    using that by (simp add: fetchRegion_def foundationStep_cases)
qed

theorem fanOut_fault_tolerance_witness:
  "fetchRegion env_live creds0 noFilters ''ap-northeast-1'' [] = [] \<and>
   fetchRegion env_live creds0 noFilters ''eu-west-1'' [] = [euSonnet45] \<and>
   set (fetchBedrockModels_regions env_live creds0 [''ap-northeast-1'', ''eu-west-1''] noFilters) =
     {euSonnet45}"
  using fanOut_fault_tolerance [of env_live creds0 "[''ap-northeast-1'', ''eu-west-1'']" noFilters]
  by (simp add: live_ap live_eu)

section \<open>The orchestrator never throws\<close>

lemma checkModelAccessStatus_Nil: "checkModelAccessStatus env creds region [] = Inr []"
  by (simp add: checkModelAccessStatus_cases split: sum.splits)

lemma discoverAvailableModels_result:
  assumes "fetchLatestModelCatalog env = Inr catalog"
    and "checkModelAccessStatus env creds region (map modelId catalog) = Inr statuses"
    and "fetchActuallyAvailableModels env creds region = Inr available"
  shows "discoverAvailableModels env creds region =
           Inr \<lparr> availableModels = available, catalogModels = catalog,
                 accessStatuses = statuses,
                 cliCommands = generateAccessRequestCommands (modelsNeedingAccess statuses) region \<rparr>"
  using assms by (simp add: discoverAvailableModels_def bindE_def)

lemma fallbackIds:
  "map modelId getFallbackModelCatalog =
     [sonnet45, ''anthropic.claude-haiku-4-5-20251001-v1:0'',
      ''anthropic.claude-sonnet-4-20250514-v1:0'', opus4, usSonnet45, euSonnet45]"
  by (simp add: getFallbackModelCatalog_def fallbackEntry_def sonnet45_def opus4_def
        usSonnet45_def euSonnet45_def)

lemma offline_catalog: "fetchLatestModelCatalog env_offline = Inr getFallbackModelCatalog"
  by (rule fetchLatestModelCatalog_fetch_throws [of _ TransportError]) (simp add: env_offline_def)

lemma offline_statuses:
  "checkModelAccessStatus env_offline creds0 region ids = Inr (map heuristicStatus ids)"
  by (simp add: checkModelAccessStatus_cases env_offline_def)

lemma offline_available: "fetchActuallyAvailableModels env_offline creds0 region = Inr []"
  by (simp add: fetchActuallyAvailableModels_def foundationStep_cases env_offline_def)

lemma fallback_all_gated:
  "modelsNeedingAccess (map heuristicStatus (map modelId getFallbackModelCatalog)) =
     map modelId getFallbackModelCatalog"
  by (simp add: fallbackIds modelsNeedingAccess_def heuristicStatus_def
        isModelRequiringAccess_patterns accessRequiredPatterns_def sonnet45_def opus4_def
        usSonnet45_def euSonnet45_def)

lemma offline_discovery:
  "discoverAvailableModels env_offline creds0 ''us-west-2'' =
     Inr \<lparr> availableModels = [], catalogModels = getFallbackModelCatalog,
           accessStatuses = map heuristicStatus (map modelId getFallbackModelCatalog),
           cliCommands =
             generateAccessRequestCommands (map modelId getFallbackModelCatalog) ''us-west-2'' \<rparr>"
  using discoverAvailableModels_result [OF offline_catalog offline_statuses offline_available]
  by (simp only: fallback_all_gated)

lemma empty_table_discovery:
  "discoverAvailableModels env_empty_table creds0 ''us-west-2'' =
     Inr \<lparr> availableModels = [], catalogModels = [], accessStatuses = [], cliCommands = [] \<rparr>"
proof -
  have t: "isModelTable \<lparr> th_texts = modelTableHeader, tbody_rows = [] \<rparr>"
    by code_simp
  have c: "fetchLatestModelCatalog env_empty_table = Inr []"
    using t
    by (simp add: fetchLatestModelCatalog_cases parseModelCatalog_try_def bindE_def
          env_empty_table_def enhanceModelMetadata_def List.map_filter_simps)
  have s: "checkModelAccessStatus env_empty_table creds0 ''us-west-2'' (map modelId []) = Inr []"
    by (simp add: checkModelAccessStatus_Nil)
  have a: "fetchActuallyAvailableModels env_empty_table creds0 ''us-west-2'' = Inr []"
    by (simp add: fetchActuallyAvailableModels_def foundationStep_cases profileStep_cases
          env_empty_table_def okResponse_def addFoundationModels_def addInferenceProfiles_def)
  from discoverAvailableModels_result [OF c s a] show ?thesis
    by (simp add: modelsNeedingAccess_def generateAccessRequestCommands_def groupByProvider_def)
qed

lemma denied_statuses: "checkModelAccessStatus env_denied creds0 region ids = Inr []"
  by (simp add: checkModelAccessStatus_cases env_denied_def deniedResponse_def)

lemma denied_discovery:
  "discoverAvailableModels env_denied creds0 ''us-west-2'' =
     Inr \<lparr> availableModels = [], catalogModels = getFallbackModelCatalog,
           accessStatuses = [], cliCommands = [] \<rparr>"
proof -
  have c: "fetchLatestModelCatalog env_denied = Inr getFallbackModelCatalog"
    by (rule fetchLatestModelCatalog_fetch_throws [of _ TransportError])
       (simp add: env_denied_def)
  have a: "fetchActuallyAvailableModels env_denied creds0 ''us-west-2'' = Inr []"
    by (simp add: fetchActuallyAvailableModels_def foundationStep_cases profileStep_cases
          env_denied_def deniedResponse_def)
  from discoverAvailableModels_result [OF c denied_statuses a] show ?thesis
    by (simp add: modelsNeedingAccess_def generateAccessRequestCommands_def groupByProvider_def)
qed

text \<open>
  C3. \<open>checkModelAccessStatus\<close> is to return one status per requested identifier whether
  the entitlement query succeeds, answers outside 2xx or throws, so that the
  orchestrator's \<open>accessStatuses\<close> has one entry per catalog entry. Run on a response
  outside 2xx with one identifier requested, it returns no status at all: the
  \<open>if (response.ok)\<close> has no \<open>else\<close>, and the heuristic statuses are pushed in the \<open>catch\<close>
  only. The orchestrator then returns the six-entry fallback catalog with no status.
\<close>

theorem checkModelAccessStatus_non_2xx_empty:
  "checkModelAccessStatus env_denied creds0 ''us-west-2'' [sonnet45] = Inr [] \<and>
   discoverAvailableModels env_denied creds0 ''us-west-2'' =
     Inr \<lparr> availableModels = [], catalogModels = getFallbackModelCatalog,
           accessStatuses = [], cliCommands = [] \<rparr> \<and>
   length getFallbackModelCatalog = 6"
  by (simp only: denied_statuses denied_discovery getFallbackModelCatalog_length simp_thms)

text \<open>
  C5, as the specification states it: \<open>discoverAvailableModels\<close> degrades to an all-empty
  result in the case of total failure of every sub-step, and only then. When every call
  throws, the catalog is the static fallback, with six heuristic statuses and three
  command groups; and the result is all-empty in a world where no sub-step fails (a
  model table without rows, and empty answers to the three signed requests).
\<close>

theorem total_failure_not_empty_counterexample:
  "docFetch env_offline = Inl TransportError \<and>
   getModelAccess env_offline creds0 ''us-west-2'' = Inl TransportError \<and>
   getFoundationModels env_offline creds0 ''us-west-2'' [] = Inl TransportError \<and>
   getInferenceProfiles env_offline creds0 ''us-west-2'' = Inl TransportError \<and>
   discoverAvailableModels env_offline creds0 ''us-west-2'' =
     Inr \<lparr> availableModels = [], catalogModels = getFallbackModelCatalog,
           accessStatuses = map heuristicStatus (map modelId getFallbackModelCatalog),
           cliCommands =
             generateAccessRequestCommands (map modelId getFallbackModelCatalog) ''us-west-2'' \<rparr> \<and>
   length getFallbackModelCatalog = 6 \<and>
   length (generateAccessRequestCommands (map modelId getFallbackModelCatalog) ''us-west-2'') = 18 \<and>
   parseModelCatalog_try env_empty_table ''<table>...</table>'' = Inr [] \<and>
   getModelAccess env_empty_table creds0 ''us-west-2'' = okResponse (Some []) \<and>
   getFoundationModels env_empty_table creds0 ''us-west-2'' [] = okResponse (Some []) \<and>
   getInferenceProfiles env_empty_table creds0 ''us-west-2'' = okResponse (Some []) \<and>
   discoverAvailableModels env_empty_table creds0 ''us-west-2'' =
     Inr \<lparr> availableModels = [], catalogModels = [], accessStatuses = [], cliCommands = [] \<rparr>"
proof -
  have t: "isModelTable \<lparr> th_texts = modelTableHeader, tbody_rows = [] \<rparr>"
    by code_simp
  have p: "parseModelCatalog_try env_empty_table ''<table>...</table>'' = Inr []"
    using t by (simp add: parseModelCatalog_try_def bindE_def env_empty_table_def List.map_filter_simps)
  have n: "card (providerOf ` set (map modelId getFallbackModelCatalog)) = 3"
    by (simp add: fallbackIds providerOf_takeWhile sonnet45_def opus4_def usSonnet45_def euSonnet45_def)
  have l: "length (generateAccessRequestCommands (map modelId getFallbackModelCatalog) ''us-west-2'') = 18"
    using n by (simp only: generateAccessRequestCommands_def length_commandGroups length_groupByProvider)
  show ?thesis
    using p l offline_discovery empty_table_discovery getFallbackModelCatalog_length
    by (simp add: env_offline_def env_empty_table_def)
qed

text \<open>
  C5, amended. \<open>discoverAvailableModels\<close> never throws: whatever the sub-steps do, it
  returns a result with the four fields, namely the acquired catalog, the statuses of
  its identifiers, the available identifiers, and the commands for the statuses without
  access. The result is all-empty exactly when the acquired catalog and the list of
  available identifiers are both empty; when the document fetch throws, the catalog is
  the six-entry static fallback, so the result is not all-empty.
\<close>

theorem discoverAvailableModels_total:
  "\<exists>r catalog available.
     discoverAvailableModels env creds region = Inr r \<and>
     fetchLatestModelCatalog env = Inr catalog \<and> catalogModels r = catalog \<and>
     fetchActuallyAvailableModels env creds region = Inr available \<and> availableModels r = available \<and>
     checkModelAccessStatus env creds region (map modelId catalog) = Inr (accessStatuses r) \<and>
     cliCommands r = generateAccessRequestCommands (modelsNeedingAccess (accessStatuses r)) region \<and>
     ((availableModels r = [] \<and> catalogModels r = [] \<and> accessStatuses r = [] \<and> cliCommands r = [])
        \<longleftrightarrow> (catalog = [] \<and> available = [])) \<and>
     ((\<exists>e. docFetch env = Inl e) \<longrightarrow>
        catalogModels r = getFallbackModelCatalog \<and> length (catalogModels r) = 6)"
proof -
  obtain catalog where c: "fetchLatestModelCatalog env = Inr catalog"
    using fetchLatestModelCatalog_total by blast
  obtain statuses where s: "checkModelAccessStatus env creds region (map modelId catalog) = Inr statuses"
    using checkModelAccessStatus_total by blast
  obtain available where a: "fetchActuallyAvailableModels env creds region = Inr available"
    using fetchActuallyAvailableModels_sorted by blast
  define r where "r = \<lparr> availableModels = available, catalogModels = catalog,
                 accessStatuses = statuses,
                 cliCommands = generateAccessRequestCommands (modelsNeedingAccess statuses) region \<rparr>"
  have d: "discoverAvailableModels env creds region = Inr r"
    unfolding r_def using c s a by (rule discoverAvailableModels_result)
  have e: "statuses = [] \<and> generateAccessRequestCommands (modelsNeedingAccess statuses) region = []"
    if "catalog = []"
  proof -
    from s that have "statuses = []" by (simp add: checkModelAccessStatus_Nil)
    then show ?thesis by (simp add: generate_empty_iff modelsNeedingAccess_def)
  qed
  have empty: "(availableModels r = [] \<and> catalogModels r = [] \<and> accessStatuses r = [] \<and>
                cliCommands r = []) \<longleftrightarrow> (catalog = [] \<and> available = [])"
    using e by (auto simp: r_def)
  have fb: "(\<exists>e. docFetch env = Inl e) \<longrightarrow>
              catalogModels r = getFallbackModelCatalog \<and> length (catalogModels r) = 6"
  proof
    assume "\<exists>e. docFetch env = Inl e"
    then obtain e where "docFetch env = Inl e" by blast
    then have "fetchLatestModelCatalog env = Inr getFallbackModelCatalog"
      by (rule fetchLatestModelCatalog_fetch_throws)
    with c have "catalog = getFallbackModelCatalog" by simp
    then show "catalogModels r = getFallbackModelCatalog \<and> length (catalogModels r) = 6"
      by (simp add: r_def getFallbackModelCatalog_length)
  qed
  have f1: "catalogModels r = catalog" and f2: "availableModels r = available"
    and f3: "checkModelAccessStatus env creds region (map modelId catalog) = Inr (accessStatuses r)"
    and f4: "cliCommands r =
               generateAccessRequestCommands (modelsNeedingAccess (accessStatuses r)) region"
    using s by (simp_all add: r_def)
  from d c a f1 f2 f3 f4 empty fb show ?thesis by blast
qed

theorem discoverAvailableModels_total_witness:
  "discoverAvailableModels env_offline creds0 ''us-west-2'' =
     Inr \<lparr> availableModels = [], catalogModels = getFallbackModelCatalog,
           accessStatuses = map heuristicStatus (map modelId getFallbackModelCatalog),
           cliCommands =
             generateAccessRequestCommands (map modelId getFallbackModelCatalog) ''us-west-2'' \<rparr> \<and>
   docFetch env_offline = Inl TransportError \<and>
   length getFallbackModelCatalog = 6"
  using discoverAvailableModels_total [of env_offline creds0 "''us-west-2''"] offline_discovery
  by (simp add: env_offline_def getFallbackModelCatalog_length)


end
